theory Spec2Isabelle
  imports Main "HOL-Library.Word"
begin

section \<open>Platform data: byte arrays, strings, numbers\<close>

text \<open>
  A \<^verbatim>\<open>Uint8Array\<close> is a list of 8-bit words. A JavaScript string is a list of UTF-16
  code units, so that lone surrogates, which \<^verbatim>\<open>TextEncoder\<close> replaces, are
  values of the type. \<open>js\<close> writes an ASCII literal of the source as such a string.
\<close>

type_synonym byte = "8 word"
type_synonym bytes = "byte list"
type_synonym jschar = "16 word"
type_synonym jsstring = "jschar list"

definition js :: "string \<Rightarrow> jsstring" where
  "js s = map (\<lambda>c. of_nat (of_char c)) s"

text \<open>
  Every \<^verbatim>\<open>throw\<close> of the source and of the platform functions it calls is a value
  of \<open>error\<close>.
\<close>

datatype error =
    SyntaxError
  | RangeError
  | DataError
  | OperationError
  | InvalidCharacterError
  | InvalidSignature
  | InvalidRecovery
  | InvalidKey
  | StorageUnavailable
  | FailedToStoreSigningKey

definition bindE :: "error + 'a \<Rightarrow> ('a \<Rightarrow> error + 'b) \<Rightarrow> error + 'b" where
  "bindE m f = (case m of Inl e \<Rightarrow> Inl e | Inr x \<Rightarrow> f x)"

subsection \<open>\<^verbatim>\<open>TextEncoder.encode\<close>: UTF-16 code units to UTF-8 bytes\<close>

definition is_lead :: "jschar \<Rightarrow> bool" where
  "is_lead u = (0xD800 \<le> u \<and> u \<le> 0xDBFF)"

definition is_trail :: "jschar \<Rightarrow> bool" where
  "is_trail u = (0xDC00 \<le> u \<and> u \<le> 0xDFFF)"

text \<open>The scalar values of a string: a surrogate pair is one scalar value, a lone
  surrogate is replaced by U+FFFD.\<close>

fun utf16_scalars :: "jsstring \<Rightarrow> nat list" where
  "utf16_scalars [] = []"
| "utf16_scalars [u] = [if is_lead u \<or> is_trail u then 0xFFFD else unat u]"
| "utf16_scalars (u # l # rest) =
     (if is_lead u \<and> is_trail l
      then (0x10000 + (unat u - 0xD800) * 0x400 + (unat l - 0xDC00)) # utf16_scalars rest
      else (if is_lead u \<or> is_trail u then 0xFFFD else unat u) # utf16_scalars (l # rest))"

definition utf8_bytes :: "nat \<Rightarrow> bytes" where
  "utf8_bytes cp =
     (if cp < 0x80 then [of_nat cp]
      else if cp < 0x800 then [of_nat (0xC0 + cp div 64), of_nat (0x80 + cp mod 64)]
      else if cp < 0x10000 then
        [of_nat (0xE0 + cp div 4096), of_nat (0x80 + (cp div 64) mod 64),
         of_nat (0x80 + cp mod 64)]
      else
        [of_nat (0xF0 + cp div 262144), of_nat (0x80 + (cp div 4096) mod 64),
         of_nat (0x80 + (cp div 64) mod 64), of_nat (0x80 + cp mod 64)])"

definition TextEncoder_encode :: "jsstring \<Rightarrow> bytes" where
  "TextEncoder_encode s = concat (map utf8_bytes (utf16_scalars s))"

subsection \<open>Numbers as text, text as numbers\<close>

text \<open>\<^verbatim>\<open>n.toString(radix)\<close> on a non-negative integer (a \<^verbatim>\<open>Number\<close> length or a
  \<^verbatim>\<open>BigInt\<close>): the digits, most significant first, no leading zero, lower case.\<close>

function digits :: "nat \<Rightarrow> nat \<Rightarrow> nat list" where
  "digits b n = (if b < 2 \<or> n < b then [n] else digits b (n div b) @ [n mod b])"
  by pat_completeness auto
termination
  by (relation "measure (\<lambda>(b, n). n)") auto

definition digit_char :: "nat \<Rightarrow> jschar" where
  "digit_char d = (if d < 10 then of_nat (48 + d) else of_nat (87 + d))"

definition toString :: "nat \<Rightarrow> nat \<Rightarrow> jsstring" where
  "toString radix n = map digit_char (digits radix n)"

text \<open>\<^verbatim>\<open>s.padStart(n, c)\<close> with a one-character filler.\<close>

definition padStart :: "nat \<Rightarrow> jschar \<Rightarrow> jsstring \<Rightarrow> jsstring" where
  "padStart n c s = replicate (n - length s) c @ s"

text \<open>The value of a hexadecimal digit, either case.\<close>

definition hex_value :: "jschar \<Rightarrow> nat option" where
  "hex_value c =
     (if 48 \<le> c \<and> c \<le> 57 then Some (unat c - 48)
      else if 97 \<le> c \<and> c \<le> 102 then Some (unat c - 87)
      else if 65 \<le> c \<and> c \<le> 70 then Some (unat c - 55)
      else None)"

definition is_hex :: "jschar \<Rightarrow> bool" where
  "is_hex c = (hex_value c \<noteq> None)"

definition hex_number :: "jsstring \<Rightarrow> nat" where
  "hex_number ds = foldl (\<lambda>acc c. acc * 16 + (case hex_value c of Some d \<Rightarrow> d | None \<Rightarrow> 0)) 0 ds"

text \<open>The white space and line terminators that the string-to-number conversions of
  ECMAScript skip (\<^verbatim>\<open>StrWhiteSpaceChar\<close>).\<close>

definition is_StrWhiteSpaceChar :: "jschar \<Rightarrow> bool" where
  "is_StrWhiteSpaceChar c =
     (c = 0x09 \<or> c = 0x0A \<or> c = 0x0B \<or> c = 0x0C \<or> c = 0x0D \<or> c = 0x20 \<or> c = 0xA0
      \<or> c = 0x1680 \<or> (0x2000 \<le> c \<and> c \<le> 0x200A) \<or> c = 0x2028 \<or> c = 0x2029
      \<or> c = 0x202F \<or> c = 0x205F \<or> c = 0x3000 \<or> c = 0xFEFF)"

text \<open>\<^verbatim>\<open>BigInt('0x' + h)\<close>: the argument starts with \<^verbatim>\<open>0x\<close>, so it converts exactly
  when \<open>h\<close> is one or more hexadecimal digits followed by white space only; otherwise
  \<^verbatim>\<open>BigInt\<close> throws a \<^verbatim>\<open>SyntaxError\<close>.\<close>

definition BigInt_0x :: "jsstring \<Rightarrow> error + nat" where
  "BigInt_0x h =
     (let ds = takeWhile is_hex h; rest = dropWhile is_hex h
      in if ds \<noteq> [] \<and> list_all is_StrWhiteSpaceChar rest then Inr (hex_number ds)
         else Inl SyntaxError)"


text \<open>\<^verbatim>\<open>s.slice(a, b)\<close> and \<^verbatim>\<open>s.slice(a)\<close> for non-negative bounds, on strings and
  arrays alike; \<^verbatim>\<open>slice(-n)\<close> keeps the last \<open>n\<close> elements.\<close>

definition slice :: "nat \<Rightarrow> nat \<Rightarrow> 'a list \<Rightarrow> 'a list" where
  "slice a b xs = take (b - a) (drop a xs)"

definition slice_from :: "nat \<Rightarrow> 'a list \<Rightarrow> 'a list" where
  "slice_from a xs = drop a xs"

definition slice_last :: "nat \<Rightarrow> 'a list \<Rightarrow> 'a list" where
  "slice_last n xs = drop (length xs - n) xs"

definition startsWith :: "jsstring \<Rightarrow> jsstring \<Rightarrow> bool" where
  "startsWith s p = (take (length p) s = p)"

subsection \<open>Big-endian numbers in byte arrays\<close>

definition bytesToNumBE :: "bytes \<Rightarrow> nat" where
  "bytesToNumBE bs = foldl (\<lambda>acc b. acc * 256 + unat b) 0 bs"

fun numToBytesBE :: "nat \<Rightarrow> nat \<Rightarrow> bytes" where
  "numToBytesBE 0 n = []"
| "numToBytesBE (Suc k) n = numToBytesBE k (n div 256) @ [of_nat (n mod 256)]"

text \<open>The byte-wise hexadecimal text of a byte array, two lower-case digits a byte: the
  reading of ``\<open>k\<close> bytes as \<open>2k\<close> hex characters'' that the wire format is stated in.\<close>

definition hex_of_byte :: "byte \<Rightarrow> jsstring" where
  "hex_of_byte b = [digit_char (unat b div 16), digit_char (unat b mod 16)]"

definition hex_of_bytes :: "bytes \<Rightarrow> jsstring" where
  "hex_of_bytes bs = concat (map hex_of_byte bs)"

definition is_lower_hex :: "jschar \<Rightarrow> bool" where
  "is_lower_hex c = ((48 \<le> c \<and> c \<le> 57) \<or> (97 \<le> c \<and> c \<le> 102))"

text \<open>Fixed-width hexadecimal text, the common form of the two encodings above.\<close>

fun hex_fixed :: "nat \<Rightarrow> nat \<Rightarrow> jsstring" where
  "hex_fixed 0 n = []"
| "hex_fixed (Suc k) n = hex_fixed k (n div 16) @ [digit_char (n mod 16)]"


section \<open>The libraries the code calls\<close>

text \<open>
  The hash, key-derivation, elliptic-curve and AES-GCM primitives come from libraries
  outside the repository (\<^verbatim>\<open>@noble/hashes\<close>, \<^verbatim>\<open>@noble/secp256k1\<close>, Web Crypto).
  They are parameters of the model, gathered in one record, with the options the source
  passes fixed: \<open>hkdf\<close> is \<^verbatim>\<open>hkdf(sha256, ikm, salt, info, length)\<close>, \<open>signAsync\<close> is
  called with \<^verbatim>\<open>{prehash: false, format: 'recovered'}\<close> on a hash and a key,
  \<open>verifyAsync\<close> and \<open>recoverPublicKeyAsync\<close> with \<^verbatim>\<open>{prehash: false}\<close>, and the two
  AES-GCM functions take the raw key, the IV and the data. Every theorem below holds
  for each value of these parameters that meets the hypotheses it states.
\<close>

record crypto_lib =
  sha256 :: "bytes \<Rightarrow> bytes"
  hkdf :: "bytes \<Rightarrow> bytes option \<Rightarrow> bytes \<Rightarrow> nat \<Rightarrow> bytes"
  getPublicKey_lib :: "bytes \<Rightarrow> bool \<Rightarrow> error + bytes"
  signAsync :: "bytes \<Rightarrow> bytes \<Rightarrow> error + bytes"
  verifyAsync :: "bytes \<Rightarrow> bytes \<Rightarrow> bytes \<Rightarrow> error + bool"
  recoverPublicKeyAsync :: "bytes \<Rightarrow> bytes \<Rightarrow> error + bytes"
  aes_gcm_encrypt :: "bytes \<Rightarrow> bytes \<Rightarrow> bytes \<Rightarrow> error + bytes"
  aes_gcm_decrypt :: "bytes \<Rightarrow> bytes \<Rightarrow> bytes \<Rightarrow> error + bytes"

text \<open>
  What an \<^verbatim>\<open>async\<close> function of the source can reach besides its arguments: the
  platform's random source (\<^verbatim>\<open>crypto.getRandomValues\<close>), the clock (\<^verbatim>\<open>Date.now\<close>)
  and the IndexedDB object store \<^verbatim>\<open>signing-keys\<close>, whose key path is the record's
  \<^verbatim>\<open>id\<close>. Each such function takes the world and returns it. The world also holds
  the largest number of arguments the engine accepts in one call, which differs from
  engine to engine: a call that spreads a longer array throws a \<^verbatim>\<open>RangeError\<close>.
\<close>

record SigningKeyRecord =
  rec_id :: jsstring
  rec_encryptedKey :: jsstring
  rec_iv :: jsstring
  rec_salt :: jsstring
  rec_timestamp :: nat
  rec_metadata :: "(jsstring \<times> jsstring) option"

record world =
  entropy :: "nat \<Rightarrow> byte"
  clock :: nat
  idb_up :: bool
  signing_keys :: "jsstring \<rightharpoonup> SigningKeyRecord"
  max_arguments :: nat

definition getRandomValues :: "nat \<Rightarrow> world \<Rightarrow> bytes \<times> world" where
  "getRandomValues n w = (map (entropy w) [0..<n], w\<lparr>entropy := (\<lambda>i. entropy w (i + n))\<rparr>)"

section \<open>Key derivation (\<^verbatim>\<open>src/lib/crypto/keyDerivation.ts\<close>)\<close>

definition CURVE_N :: nat where
  "CURVE_N = 0xFFFFFFFFFFFFFFFFFFFFFFFFFFFFFFFEBAAEDCE6AF48A03BBFD25E8CD0364141"

text \<open>\<^verbatim>\<open>secp256k1.utils.isValidSecretKey\<close>: 32 bytes whose big-endian value lies in
  \<open>[1, n - 1]\<close>, as the comment in \<^verbatim>\<open>ensureValidPrivateKey\<close> says.\<close>

definition isValidSecretKey :: "bytes \<Rightarrow> bool" where
  "isValidSecretKey key =
     (length key = 32 \<and> 1 \<le> bytesToNumBE key \<and> bytesToNumBE key < CURVE_N)"

text \<open>The \<^verbatim>\<open>while\<close> loop of \<^verbatim>\<open>ensureValidPrivateKey\<close>. It has no counter and no
  other exit, so the model is a partial function: \<open>None\<close> is a loop that never ends.\<close>

partial_function (option) ensureValidPrivateKey :: "crypto_lib \<Rightarrow> bytes \<Rightarrow> bytes option" where
  "ensureValidPrivateKey L key =
     (if \<not> isValidSecretKey key then ensureValidPrivateKey L (sha256 L key) else Some key)"

definition deriveSigningKey ::
  "crypto_lib \<Rightarrow> jsstring \<Rightarrow> jsstring \<Rightarrow> bytes option \<Rightarrow> world \<Rightarrow> (bytes \<times> world) option" where
  "deriveSigningKey L credentialId userId salt_opt w =
     (let info = TextEncoder_encode (js ''passface-signing-key-v1'');
          ikm = TextEncoder_encode (credentialId @ userId);
          derivedKey = hkdf L ikm salt_opt info 32
      in map_option (\<lambda>key. (key, w)) (ensureValidPrivateKey L derivedKey))"

definition getPublicKey :: "crypto_lib \<Rightarrow> bytes \<Rightarrow> error + bytes" where
  "getPublicKey L privateKey = getPublicKey_lib L privateKey True"

definition getEthereumAddress :: "crypto_lib \<Rightarrow> bytes \<Rightarrow> world \<Rightarrow> (error + jsstring) \<times> world" where
  "getEthereumAddress L privateKey w =
     (bindE (getPublicKey_lib L privateKey False) (\<lambda>publicKey.
        let publicKeyWithoutPrefix = slice_from 1 publicKey;
            hash = sha256 L publicKeyWithoutPrefix;
            address = concat (map (\<lambda>b. padStart 2 (digit_char 0) (toString 16 (unat b)))
                                  (slice_last 20 hash))
        in Inr (js ''0x'' @ address)),
      w)"

section \<open>Signing (\<^verbatim>\<open>MessageSigner\<close>)\<close>

subsection \<open>The library's \<^verbatim>\<open>Signature\<close> container\<close>

text \<open>A JavaScript number that is an integer or \<^verbatim>\<open>NaN\<close>: what \<^verbatim>\<open>parseInt\<close> returns
  and what a recovery id can hold.\<close>

datatype number = NaN | Num int

definition number_toString16 :: "number \<Rightarrow> jsstring" where
  "number_toString16 v =
     (case v of
        NaN \<Rightarrow> js ''NaN''
      | Num i \<Rightarrow> if i < 0 then 0x2D # toString 16 (nat (- i)) else toString 16 (nat i))"

record Signature =
  sig_r :: nat
  sig_s :: nat
  sig_recovery :: "number option"

text \<open>\<^verbatim>\<open>new Signature(r, s, recovery)\<close> throws unless \<open>r\<close> and \<open>s\<close> lie in
  \<open>[1, n - 1]\<close>; \<^verbatim>\<open>Signature.fromBytes(b, 'recovered')\<close> reads the recovery id from the
  first of 65 bytes; \<^verbatim>\<open>toBytes('recovered')\<close> throws unless the recovery id is one of
  0, 1, 2, 3.\<close>

definition Signature_new :: "nat \<Rightarrow> nat \<Rightarrow> number option \<Rightarrow> error + Signature" where
  "Signature_new r s recovery =
     (if 1 \<le> r \<and> r < CURVE_N \<and> 1 \<le> s \<and> s < CURVE_N
      then Inr \<lparr>sig_r = r, sig_s = s, sig_recovery = recovery\<rparr>
      else Inl InvalidSignature)"

definition Signature_fromBytes_recovered :: "bytes \<Rightarrow> error + Signature" where
  "Signature_fromBytes_recovered b =
     (if length b \<noteq> 65 then Inl InvalidSignature
      else Signature_new (bytesToNumBE (slice 1 33 b)) (bytesToNumBE (slice 33 65 b))
             (Some (Num (uint (hd b)))))"

definition Signature_toBytes_compact :: "Signature \<Rightarrow> bytes" where
  "Signature_toBytes_compact sg = numToBytesBE 32 (sig_r sg) @ numToBytesBE 32 (sig_s sg)"


subsection \<open>The source's functions\<close>

datatype message = MString jsstring | MBytes bytes

definition messageBytes :: "message \<Rightarrow> bytes" where
  "messageBytes m = (case m of MString s \<Rightarrow> TextEncoder_encode s | MBytes b \<Rightarrow> b)"

definition Uint8Array_new :: "nat \<Rightarrow> bytes" where
  "Uint8Array_new n = replicate n 0"

text \<open>\<^verbatim>\<open>target.set(source, offset)\<close> throws a \<^verbatim>\<open>RangeError\<close> when the source does not
  fit.\<close>

definition Uint8Array_set :: "bytes \<Rightarrow> bytes \<Rightarrow> nat \<Rightarrow> error + bytes" where
  "Uint8Array_set target source offset =
     (if length target < offset + length source then Inl RangeError
      else Inr (take offset target @ source @ drop (offset + length source) target))"

definition prefixMessage :: "bytes \<Rightarrow> error + bytes" where
  "prefixMessage msg =
     (let prefix = 0x19 # js ''Ethereum Signed Message:'' @ [0x0A];
          prefixBytes = TextEncoder_encode prefix;
          lengthBytes = TextEncoder_encode (toString 10 (length msg));
          result0 = Uint8Array_new (length prefixBytes + length lengthBytes + length msg)
      in bindE (Uint8Array_set result0 prefixBytes 0) (\<lambda>result1.
         bindE (Uint8Array_set result1 lengthBytes (length prefixBytes)) (\<lambda>result2.
         Uint8Array_set result2 msg (length prefixBytes + length lengthBytes))))"

definition formatSignature :: "Signature \<Rightarrow> jsstring" where
  "formatSignature sg =
     (let r = padStart 64 (digit_char 0) (toString 16 (sig_r sg));
          s = padStart 64 (digit_char 0) (toString 16 (sig_s sg));
          v = (case sig_recovery sg of
                 None \<Rightarrow> Num 27
               | Some NaN \<Rightarrow> NaN
               | Some (Num i) \<Rightarrow> Num (i + 27));
          vHex = padStart 2 (digit_char 0) (number_toString16 v)
      in js ''0x'' @ r @ s @ vHex)"

definition signMessage ::
  "crypto_lib \<Rightarrow> message \<Rightarrow> bytes \<Rightarrow> world \<Rightarrow> (error + jsstring) \<times> world" where
  "signMessage L msg privateKey w =
     (bindE (prefixMessage (messageBytes msg)) (\<lambda>prefixedMessage.
        let messageHash = sha256 L prefixedMessage
        in bindE (signAsync L messageHash privateKey) (\<lambda>signatureBytes.
           bindE (Signature_fromBytes_recovered signatureBytes) (\<lambda>signature.
           Inr (formatSignature signature)))),
      w)"

text \<open>The text that \<^verbatim>\<open>verifySignature\<close> and \<^verbatim>\<open>recoverPublicKey\<close> bind to
  \<^verbatim>\<open>sigHex\<close>: the signature without a leading \<^verbatim>\<open>0x\<close>.\<close>

definition sigHex_of :: "jsstring \<Rightarrow> jsstring" where
  "sigHex_of signature =
     (if startsWith signature (js ''0x'') then slice_from 2 signature else signature)"

text \<open>The body of the \<^verbatim>\<open>try\<close> block of \<^verbatim>\<open>verifySignature\<close>, then the function with
  its \<^verbatim>\<open>catch\<close>, which returns \<^verbatim>\<open>false\<close> for every error.\<close>

definition verifySignature_try :: "crypto_lib \<Rightarrow> message \<Rightarrow> jsstring \<Rightarrow> bytes \<Rightarrow> error + bool" where
  "verifySignature_try L msg signature publicKey =
     bindE (prefixMessage (messageBytes msg)) (\<lambda>prefixedMessage.
       let messageHash = sha256 L prefixedMessage;
           sigHex = sigHex_of signature
       in bindE (BigInt_0x (slice 0 64 sigHex)) (\<lambda>r.
          bindE (BigInt_0x (slice 64 128 sigHex)) (\<lambda>s.
          bindE (Signature_new r s None) (\<lambda>sg.
          verifyAsync L (Signature_toBytes_compact sg) messageHash publicKey))))"

definition verifySignature ::
  "crypto_lib \<Rightarrow> message \<Rightarrow> jsstring \<Rightarrow> bytes \<Rightarrow> world \<Rightarrow> (error + bool) \<times> world" where
  "verifySignature L msg signature publicKey w =
     (case verifySignature_try L msg signature publicKey of
        Inl e \<Rightarrow> (Inr False, w)
      | Inr b \<Rightarrow> (Inr b, w))"


text \<open>The buffer as the specification words it: the prefix, the decimal length of the
  message as ASCII text, the message.\<close>

definition personal_message_prefix :: bytes where
  "personal_message_prefix =
     [0x19, 0x45, 0x74, 0x68, 0x65, 0x72, 0x65, 0x75, 0x6D, 0x20, 0x53, 0x69, 0x67, 0x6E,
      0x65, 0x64, 0x20, 0x4D, 0x65, 0x73, 0x73, 0x61, 0x67, 0x65, 0x3A, 0x0A]"

definition ascii_decimal :: "nat \<Rightarrow> bytes" where
  "ascii_decimal n = map (\<lambda>d. of_nat (48 + d)) (digits 10 n)"

definition personal_message_buffer :: "bytes \<Rightarrow> bytes" where
  "personal_message_buffer msg = personal_message_prefix @ ascii_decimal (length msg) @ msg"


section \<open>Encryption (\<^verbatim>\<open>Encryption\<close>)\<close>

text \<open>\<^verbatim>\<open>crypto.subtle.importKey('raw', key, {name: 'AES-GCM'}, ...)\<close> accepts keys of 128,
  192 or 256 bits.\<close>

definition importKey_AES_GCM :: "bytes \<Rightarrow> error + bytes" where
  "importKey_AES_GCM raw =
     (if length raw = 16 \<or> length raw = 24 \<or> length raw = 32 then Inr raw else Inl DataError)"

record EncryptResult =
  res_encryptedData :: bytes
  res_iv :: bytes
  res_salt :: bytes

definition encrypt ::
  "crypto_lib \<Rightarrow> bytes \<Rightarrow> jsstring \<Rightarrow> world \<Rightarrow> (error + EncryptResult) \<times> world" where
  "encrypt L data password w =
     (let dataStandard = data;
          (salt, w1) = getRandomValues 16 w;
          (iv, w2) = getRandomValues 12 w1;
          passwordBytes = TextEncoder_encode password;
          info = TextEncoder_encode (js ''passface-encryption-key-v1'');
          derivedKey = hkdf L passwordBytes (Some salt) info 32
      in (bindE (importKey_AES_GCM derivedKey) (\<lambda>cryptoKey.
          bindE (aes_gcm_encrypt L cryptoKey iv dataStandard) (\<lambda>encryptedBuffer.
          Inr \<lparr>res_encryptedData = encryptedBuffer, res_iv = iv, res_salt = salt\<rparr>)),
          w2))"

definition decrypt ::
  "crypto_lib \<Rightarrow> bytes \<Rightarrow> bytes \<Rightarrow> bytes \<Rightarrow> jsstring \<Rightarrow> world \<Rightarrow> (error + bytes) \<times> world" where
  "decrypt L encryptedData iv salt password w =
     (let passwordBytes = TextEncoder_encode password;
          info = TextEncoder_encode (js ''passface-encryption-key-v1'');
          derivedKey = hkdf L passwordBytes (Some salt) info 32
      in (bindE (importKey_AES_GCM derivedKey) (\<lambda>cryptoKey.
          aes_gcm_decrypt L cryptoKey iv encryptedData),
          w))"

subsection \<open>Base64: \<^verbatim>\<open>btoa\<close> and \<^verbatim>\<open>atob\<close>\<close>

definition b64_char :: "nat \<Rightarrow> jschar" where
  "b64_char v =
     (if v < 26 then of_nat (65 + v)
      else if v < 52 then of_nat (71 + v)
      else if v < 62 then of_nat (v - 4)
      else if v = 62 then 0x2B else 0x2F)"


fun b64_sextets :: "nat list \<Rightarrow> nat list" where
  "b64_sextets (a # b # c # rest) =
     [a div 4, (a mod 4) * 16 + b div 16, (b mod 16) * 4 + c div 64, c mod 64]
       @ b64_sextets rest"
| "b64_sextets [a, b] = [a div 4, (a mod 4) * 16 + b div 16, (b mod 16) * 4]"
| "b64_sextets [a] = [a div 4, (a mod 4) * 16]"
| "b64_sextets [] = []"


text \<open>\<^verbatim>\<open>btoa\<close> throws when a code unit exceeds 255; \<^verbatim>\<open>atob\<close> is the forgiving decoder
  of the platform: ASCII white space is dropped, one or two trailing \<^verbatim>\<open>=\<close> are
  removed from a text whose length is a multiple of four, and any other character
  outside the alphabet, or a length of 1 modulo 4, throws.\<close>

definition btoa :: "jsstring \<Rightarrow> error + jsstring" where
  "btoa s =
     (if list_all (\<lambda>c. c \<le> 0xFF) s
      then Inr (map b64_char (b64_sextets (map unat s))
                @ replicate ((3 - length s mod 3) mod 3) 0x3D)
      else Inl InvalidCharacterError)"



text \<open>\<^verbatim>\<open>String.fromCharCode(...bytes)\<close> passes every byte as one argument of a single
  call, which throws a \<^verbatim>\<open>RangeError\<close> when the array is longer than the engine
  accepts, and otherwise makes one code unit of each byte;
  \<^verbatim>\<open>bytes[i] = binaryString.charCodeAt(i)\<close> stores a code unit modulo 256.\<close>

definition bytesToBase64 :: "world \<Rightarrow> bytes \<Rightarrow> error + jsstring" where
  "bytesToBase64 w bs =
     (if max_arguments w < length bs then Inl RangeError else btoa (map ucast bs))"


section \<open>The key vault (\<^verbatim>\<open>KeyStorage\<close>)\<close>

definition getDB :: "world \<Rightarrow> error + unit" where
  "getDB w = (if idb_up w then Inr () else Inl StorageUnavailable)"

text \<open>\<^verbatim>\<open>storeKey\<close>: whatever the \<^verbatim>\<open>try\<close> block throws is rethrown as the one error
  \<^verbatim>\<open>Failed to store signing key\<close>; \<^verbatim>\<open>db.put\<close> overwrites the record of the same id.\<close>

definition storeKey ::
  "crypto_lib \<Rightarrow> jsstring \<Rightarrow> bytes \<Rightarrow> jsstring \<Rightarrow> (jsstring \<times> jsstring) option \<Rightarrow> world
     \<Rightarrow> (error + unit) \<times> world" where
  "storeKey L credentialId privateKey password metadata w =
     (let (enc, w1) = encrypt L privateKey password w;
          attempt =
            bindE enc (\<lambda>out.
            bindE (bytesToBase64 w1 (res_encryptedData out)) (\<lambda>encryptedKey64.
            bindE (bytesToBase64 w1 (res_iv out)) (\<lambda>iv64.
            bindE (bytesToBase64 w1 (res_salt out)) (\<lambda>salt64.
            bindE (getDB w1) (\<lambda>db.
            Inr \<lparr>rec_id = credentialId, rec_encryptedKey = encryptedKey64, rec_iv = iv64,
                 rec_salt = salt64, rec_timestamp = clock w1, rec_metadata = metadata\<rparr>)))))
      in case attempt of
           Inl e \<Rightarrow> (Inl FailedToStoreSigningKey, w1)
         | Inr record \<Rightarrow>
             (Inr (), w1\<lparr>signing_keys := (signing_keys w1)(credentialId \<mapsto> record)\<rparr>))"




section \<open>What the theorems ask of the libraries\<close>

text \<open>
  The hash returns 32 bytes and HKDF returns as many bytes as it is asked for. For a
  valid secret key and a 32-byte hash, ECDSA signing returns the 65 bytes of a
  recoverable signature (recovery id, then \<open>r\<close>, then \<open>s\<close>) with \<open>r\<close> and \<open>s\<close> in
  \<open>[1, n - 1]\<close> and a recovery id of at most 3, and the compact signature verifies
  against the compressed public key of that secret key. AES-GCM with a 256-bit key and
  a 96-bit IV encrypts, and decrypts what it encrypted under the same key and IV; its
  ciphertext is the length of the plaintext and a 16-byte authentication tag.
\<close>

definition hash_contract :: "crypto_lib \<Rightarrow> bool" where
  "hash_contract L = (\<forall>x. length (sha256 L x) = 32)"

definition hkdf_contract :: "crypto_lib \<Rightarrow> bool" where
  "hkdf_contract L = (\<forall>ikm salt_opt info n. length (hkdf L ikm salt_opt info n) = n)"

definition ecdsa_contract :: "crypto_lib \<Rightarrow> bool" where
  "ecdsa_contract L =
     (\<forall>h k. length h = 32 \<and> isValidSecretKey k \<longrightarrow>
        (\<exists>rc r s pk.
           signAsync L h k = Inr (rc # numToBytesBE 32 r @ numToBytesBE 32 s)
           \<and> unat rc \<le> 3 \<and> 1 \<le> r \<and> r < CURVE_N \<and> 1 \<le> s \<and> s < CURVE_N
           \<and> getPublicKey_lib L k True = Inr pk
           \<and> verifyAsync L (numToBytesBE 32 r @ numToBytesBE 32 s) h pk = Inr True))"

text \<open>Re-hashing reaches a valid scalar from every start: what the return of the
  retry loop of the key derivation rests on.\<close>

definition rehash_contract :: "crypto_lib \<Rightarrow> bool" where
  "rehash_contract L = (\<forall>x. \<exists>i. isValidSecretKey ((sha256 L ^^ i) x))"

definition aead_contract :: "crypto_lib \<Rightarrow> bool" where
  "aead_contract L =
     (\<forall>key iv d. length key = 32 \<and> length iv = 12 \<longrightarrow>
        (\<exists>ct. aes_gcm_encrypt L key iv d = Inr ct \<and> aes_gcm_decrypt L key iv ct = Inr d))"

definition aead_tag_contract :: "crypto_lib \<Rightarrow> bool" where
  "aead_tag_contract L =
     (\<forall>key iv d ct. aes_gcm_encrypt L key iv d = Inr ct \<longrightarrow> length ct = length d + 16)"


section \<open>Library instances for concrete runs\<close>

text \<open>
  Instances of the parameters on which the model can be run at concrete inputs. They
  have the interface and the contracts above and none of the security of the real
  primitives: \<open>demo_hash\<close> is a length and a byte sum, \<open>demo_sign\<close> a keyed
  checksum whose public key carries the secret key, and \<open>demo_encrypt\<close> appends a
  16-byte tag computed from the key and the IV.
\<close>

definition demo_hash :: "bytes \<Rightarrow> bytes" where
  "demo_hash x = replicate 29 0 @ [of_nat (length x), sum_list x, 1]"

definition demo_hkdf :: "bytes \<Rightarrow> bytes option \<Rightarrow> bytes \<Rightarrow> nat \<Rightarrow> bytes" where
  "demo_hkdf ikm salt_opt info n =
     take n (demo_hash (ikm @ (case salt_opt of None \<Rightarrow> [] | Some s \<Rightarrow> s) @ info)
             @ replicate n 0)"

definition demo_getPublicKey :: "bytes \<Rightarrow> bool \<Rightarrow> error + bytes" where
  "demo_getPublicKey k compressed =
     (if isValidSecretKey k then Inr (if compressed then 2 # k else 4 # k @ k)
      else Inl InvalidKey)"

definition demo_sign :: "bytes \<Rightarrow> bytes \<Rightarrow> error + bytes" where
  "demo_sign h k =
     (if isValidSecretKey k \<and> length h = 32 then Inr (0 # k @ demo_hash (h @ k))
      else Inl InvalidKey)"

definition demo_verify :: "bytes \<Rightarrow> bytes \<Rightarrow> bytes \<Rightarrow> error + bool" where
  "demo_verify sg h pk =
     (if length sg = 64 \<and> length h = 32 \<and> length pk = 33
      then Inr (take 32 sg = tl pk \<and> drop 32 sg = demo_hash (h @ tl pk))
      else Inl InvalidSignature)"

definition demo_recover :: "bytes \<Rightarrow> bytes \<Rightarrow> error + bytes" where
  "demo_recover rsg h =
     (if length rsg = 65 then Inr (2 # take 32 (tl rsg)) else Inl InvalidSignature)"

definition demo_tag :: "bytes \<Rightarrow> bytes \<Rightarrow> bytes" where
  "demo_tag key iv = drop 16 (demo_hash (key @ iv))"

definition demo_encrypt :: "bytes \<Rightarrow> bytes \<Rightarrow> bytes \<Rightarrow> error + bytes" where
  "demo_encrypt key iv d = Inr (d @ demo_tag key iv)"

definition demo_decrypt :: "bytes \<Rightarrow> bytes \<Rightarrow> bytes \<Rightarrow> error + bytes" where
  "demo_decrypt key iv ct =
     (if 16 \<le> length ct \<and> drop (length ct - 16) ct = demo_tag key iv
      then Inr (take (length ct - 16) ct)
      else Inl OperationError)"

definition demo_lib :: crypto_lib where
  "demo_lib =
     \<lparr>sha256 = demo_hash, hkdf = demo_hkdf, getPublicKey_lib = demo_getPublicKey,
      signAsync = demo_sign, verifyAsync = demo_verify, recoverPublicKeyAsync = demo_recover,
      aes_gcm_encrypt = demo_encrypt, aes_gcm_decrypt = demo_decrypt\<rparr>"

definition demo_world :: world where
  "demo_world =
     \<lparr>entropy = (\<lambda>i. of_nat (7 * i + 3)), clock = 1700000000000, idb_up = True,
      signing_keys = Map.empty, max_arguments = 65536\<rparr>"

section \<open>Properties\<close>

subsection \<open>Hexadecimal text and big-endian bytes\<close>

declare digits.simps [simp del]

lemma mod256_split: "(n::nat) mod 256 = 16 * (n div 16 mod 16) + n mod 16"
  using mod_mult2_eq [of n 16 16] by simp

lemma unat_digit_char:
  "d < 16 \<Longrightarrow> unat (digit_char d) = (if d < 10 then 48 + d else 87 + d)"
proof -
  assume d: "d < 16"
  have "unat (of_nat (48 + d) :: jschar) = 48 + d" "unat (of_nat (87 + d) :: jschar) = 87 + d"
    using d by (simp_all only: unat_of_nat) simp_all
  then show ?thesis by (simp only: digit_char_def split: if_splits) simp
qed

lemma hex_value_digit_char: "d < 16 \<Longrightarrow> hex_value (digit_char d) = Some d"
  by (auto simp: hex_value_def word_le_nat_alt unat_digit_char)

lemma is_lower_hex_digit_char: "d < 16 \<Longrightarrow> is_lower_hex (digit_char d)"
  by (auto simp: is_lower_hex_def word_le_nat_alt unat_digit_char)

lemma is_hex_digit_char: "d < 16 \<Longrightarrow> is_hex (digit_char d)"
  by (simp add: is_hex_def hex_value_digit_char)

lemma length_hex_fixed [simp]: "length (hex_fixed k n) = k"
  by (induction k arbitrary: n) simp_all

lemma hex_fixed_zero: "hex_fixed k 0 = replicate k (digit_char 0)"
  by (induction k) (simp_all add: replicate_append_same)

lemma padStart_snoc:
  "length xs \<le> k \<Longrightarrow> padStart (Suc k) c (xs @ [y]) = padStart k c xs @ [y]"
  by (simp add: padStart_def)

lemma length_digits16: "n < 16 ^ k \<Longrightarrow> 0 < k \<Longrightarrow> length (digits 16 n) \<le> k"
proof (induction k arbitrary: n)
  case 0
  then show ?case by simp
next
  case (Suc k)
  show ?case
  proof (cases "n < 16")
    case True
    then show ?thesis by (simp add: digits.simps [of 16 n])
  next
    case False
    with Suc.prems have k: "0 < k" by (cases k) auto
    from Suc.prems have "n div 16 < 16 ^ k"
      by (simp add: less_mult_imp_div_less mult.commute)
    with Suc.IH k have "length (digits 16 (n div 16)) \<le> k" by blast
    with False show ?thesis by (simp add: digits.simps [of 16 n])
  qed
qed

lemma padStart_toString16:
  "n < 16 ^ k \<Longrightarrow> 0 < k \<Longrightarrow> padStart k (digit_char 0) (toString 16 n) = hex_fixed k n"
proof (induction k arbitrary: n)
  case 0
  then show ?case by simp
next
  case (Suc k)
  show ?case
  proof (cases "n < 16")
    case True
    then show ?thesis
      by (simp add: toString_def digits.simps [of 16 n] padStart_def hex_fixed_zero)
  next
    case False
    with Suc.prems have k: "0 < k" by (cases k) auto
    from Suc.prems have lt: "n div 16 < 16 ^ k"
      by (simp add: less_mult_imp_div_less mult.commute)
    have len: "length (toString 16 (n div 16)) \<le> k"
      using length_digits16 [OF lt k] by (simp add: toString_def)
    have "toString 16 n = toString 16 (n div 16) @ [digit_char (n mod 16)]"
      using False by (simp add: toString_def digits.simps [of 16 n])
    then show ?thesis
      using padStart_snoc [OF len] Suc.IH [OF lt k] by simp
  qed
qed

lemma hex_of_bytes_numToBytesBE: "hex_of_bytes (numToBytesBE k n) = hex_fixed (2 * k) n"
proof (induction k arbitrary: n)
  case 0
  then show ?case by (simp add: hex_of_bytes_def)
next
  case (Suc k)
  have u: "unat (of_nat (n mod 256) :: byte) = n mod 256"
    by (simp add: unat_of_nat)
  have a: "n mod 256 div 16 = n div 16 mod 16"
    by (simp add: mod256_split)
  have b: "n mod 256 mod 16 = n mod 16"
    by (simp add: mod256_split)
  have c: "n div 16 div 16 = n div 256"
    by (simp add: div_mult2_eq [symmetric])
  have "hex_of_bytes (numToBytesBE (Suc k) n)
      = hex_of_bytes (numToBytesBE k (n div 256)) @ hex_of_byte (of_nat (n mod 256))"
    by (simp add: hex_of_bytes_def)
  also have "\<dots> = hex_fixed (2 * k) (n div 256)
      @ [digit_char (n div 16 mod 16), digit_char (n mod 16)]"
    by (simp add: Suc.IH hex_of_byte_def u a b)
  also have "\<dots> = hex_fixed (2 * Suc k) n"
    by (simp add: c)
  finally show ?case .
qed

lemma list_all_lower_hex_fixed: "list_all is_lower_hex (hex_fixed k n)"
  by (induction k arbitrary: n) (simp_all add: is_lower_hex_digit_char)

lemma list_all_is_hex_fixed: "list_all is_hex (hex_fixed k n)"
  by (induction k arbitrary: n) (simp_all add: is_hex_digit_char)

lemma hex_number_snoc:
  "hex_number (ds @ [c]) = hex_number ds * 16 + (case hex_value c of Some d \<Rightarrow> d | None \<Rightarrow> 0)"
  by (simp add: hex_number_def)

lemma hex_number_hex_fixed: "hex_number (hex_fixed k n) = n mod 16 ^ k"
proof (induction k arbitrary: n)
  case 0
  then show ?case by (simp add: hex_number_def)
next
  case (Suc k)
  have "hex_number (hex_fixed (Suc k) n) = (n div 16 mod 16 ^ k) * 16 + n mod 16"
    by (simp add: hex_number_snoc Suc.IH hex_value_digit_char)
  also have "\<dots> = n mod 16 ^ Suc k"
    by (simp add: mod_mult2_eq mult.commute)
  finally show ?case .
qed

lemma BigInt_0x_hex_fixed: "0 < k \<Longrightarrow> BigInt_0x (hex_fixed k n) = Inr (n mod 16 ^ k)"
proof -
  assume k: "0 < k"
  have all: "\<forall>c\<in>set (hex_fixed k n). is_hex c"
    using list_all_is_hex_fixed [of k n] by (simp add: list_all_iff)
  have tw: "takeWhile is_hex (hex_fixed k n) = hex_fixed k n"
    using all by (simp add: takeWhile_eq_all_conv)
  have dw: "dropWhile is_hex (hex_fixed k n) = []"
    using all by (simp add: dropWhile_eq_Nil_conv)
  have ne: "hex_fixed k n \<noteq> []"
    using k by (metis length_hex_fixed length_0_conv less_numeral_extra(3))
  show ?thesis
    by (simp add: BigInt_0x_def tw dw ne hex_number_hex_fixed)
qed

lemma length_numToBytesBE [simp]: "length (numToBytesBE k n) = k"
  by (induction k arbitrary: n) simp_all

lemma bytesToNumBE_snoc: "bytesToNumBE (bs @ [b]) = bytesToNumBE bs * 256 + unat b"
  by (simp add: bytesToNumBE_def)

lemma bytesToNumBE_numToBytesBE: "bytesToNumBE (numToBytesBE k n) = n mod 256 ^ k"
proof (induction k arbitrary: n)
  case 0
  then show ?case by (simp add: bytesToNumBE_def)
next
  case (Suc k)
  have "bytesToNumBE (numToBytesBE (Suc k) n) = (n div 256 mod 256 ^ k) * 256 + n mod 256"
    by (simp add: bytesToNumBE_snoc Suc.IH unat_of_nat)
  also have "\<dots> = n mod 256 ^ Suc k"
    by (simp add: mod_mult2_eq mult.commute)
  finally show ?case .
qed

lemma bytesToNumBE_bound: "bytesToNumBE bs < 256 ^ length bs"
proof (induction bs rule: rev_induct)
  case Nil
  then show ?case by (simp add: bytesToNumBE_def)
next
  case (snoc b bs)
  have "unat b < 256" using unsigned_less [of b] by simp
  with snoc show ?case by (simp add: bytesToNumBE_snoc)
qed

lemma numToBytesBE_bytesToNumBE: "numToBytesBE (length bs) (bytesToNumBE bs) = bs"
proof (induction bs rule: rev_induct)
  case Nil
  then show ?case by simp
next
  case (snoc b bs)
  have lt: "unat b < 256" using unsigned_less [of b] by simp
  then have d: "(bytesToNumBE bs * 256 + unat b) div 256 = bytesToNumBE bs"
    by simp
  have m: "(bytesToNumBE bs * 256 + unat b) mod 256 = unat b"
    using lt by simp
  have w: "(of_nat (unat b) :: byte) = b" by simp
  show ?case
    by (simp only: length_append_singleton numToBytesBE.simps bytesToNumBE_snoc d m snoc.IH w)
qed

subsection \<open>The retry loop of the key derivation\<close>

lemma ensureValidPrivateKey_first_valid_iterate:
  "isValidSecretKey ((sha256 L ^^ i) key) \<Longrightarrow>
   (\<forall>j<i. \<not> isValidSecretKey ((sha256 L ^^ j) key)) \<Longrightarrow>
   ensureValidPrivateKey L key = Some ((sha256 L ^^ i) key)"
proof (induction i arbitrary: key)
  case 0
  then show ?case by (simp add: ensureValidPrivateKey.simps)
next
  case (Suc i)
  from Suc.prems(2) have nv: "\<not> isValidSecretKey key" by force
  have v: "isValidSecretKey ((sha256 L ^^ i) (sha256 L key))"
    using Suc.prems(1) by (simp add: funpow_swap1)
  have "\<forall>j<i. \<not> isValidSecretKey ((sha256 L ^^ j) (sha256 L key))"
  proof (intro allI impI)
    fix j assume "j < i"
    then have "Suc j < Suc i" by simp
    with Suc.prems(2) have "\<not> isValidSecretKey ((sha256 L ^^ Suc j) key)" by blast
    then show "\<not> isValidSecretKey ((sha256 L ^^ j) (sha256 L key))"
      by (simp add: funpow_swap1)
  qed
  with Suc.IH v have "ensureValidPrivateKey L (sha256 L key) = Some ((sha256 L ^^ i) (sha256 L key))"
    by blast
  with nv show ?case
    by (simp add: ensureValidPrivateKey.simps [of L key] funpow_swap1)
qed

lemma ensureValidPrivateKey_Some_iterate:
  assumes "ensureValidPrivateKey L key = Some k"
  shows "\<exists>i. k = (sha256 L ^^ i) key \<and> isValidSecretKey k
           \<and> (\<forall>j<i. \<not> isValidSecretKey ((sha256 L ^^ j) key))"
proof (rule ensureValidPrivateKey.raw_induct
    [where P = "\<lambda>M c y. \<exists>i. y = (sha256 M ^^ i) c \<and> isValidSecretKey y
                  \<and> (\<forall>j<i. \<not> isValidSecretKey ((sha256 M ^^ j) c))", OF _ assms])
  fix ensure :: "crypto_lib \<Rightarrow> bytes \<Rightarrow> bytes option" and M c y
  assume IH: "\<And>M c y. ensure M c = Some y \<Longrightarrow>
      \<exists>i. y = (sha256 M ^^ i) c \<and> isValidSecretKey y
        \<and> (\<forall>j<i. \<not> isValidSecretKey ((sha256 M ^^ j) c))"
    and eq: "(if \<not> isValidSecretKey c then ensure M (sha256 M c) else Some c) = Some y"
  show "\<exists>i. y = (sha256 M ^^ i) c \<and> isValidSecretKey y
          \<and> (\<forall>j<i. \<not> isValidSecretKey ((sha256 M ^^ j) c))"
  proof (cases "isValidSecretKey c")
    case True
    with eq have "y = c" by simp
    with True show ?thesis by (intro exI [of _ 0]) simp
  next
    case False
    with eq have "ensure M (sha256 M c) = Some y" by simp
    from IH [OF this] obtain i where i: "y = (sha256 M ^^ i) (sha256 M c)"
      "isValidSecretKey y" "\<forall>j<i. \<not> isValidSecretKey ((sha256 M ^^ j) (sha256 M c))"
      by blast
    have "\<forall>j<Suc i. \<not> isValidSecretKey ((sha256 M ^^ j) c)"
    proof (intro allI impI)
      fix j assume j: "j < Suc i"
      show "\<not> isValidSecretKey ((sha256 M ^^ j) c)"
      proof (cases j)
        case 0
        with False show ?thesis by simp
      next
        case (Suc j')
        with j have "j' < i" by simp
        with i(3) have "\<not> isValidSecretKey ((sha256 M ^^ j') (sha256 M c))" by blast
        with Suc show ?thesis by (simp add: funpow_swap1)
      qed
    qed
    with i(1,2) show ?thesis
      by (intro exI [of _ "Suc i"]) (simp add: funpow_swap1)
  qed
qed

lemma ensureValidPrivateKey_None_iff:
  "ensureValidPrivateKey L key = None \<longleftrightarrow> (\<forall>i. \<not> isValidSecretKey ((sha256 L ^^ i) key))"
proof
  assume n: "ensureValidPrivateKey L key = None"
  show "\<forall>i. \<not> isValidSecretKey ((sha256 L ^^ i) key)"
  proof (rule ccontr)
    assume "\<not> (\<forall>i. \<not> isValidSecretKey ((sha256 L ^^ i) key))"
    then have ex: "\<exists>i. isValidSecretKey ((sha256 L ^^ i) key)" by blast
    define m where "m = (LEAST i. isValidSecretKey ((sha256 L ^^ i) key))"
    have "isValidSecretKey ((sha256 L ^^ m) key)"
      unfolding m_def using ex by (rule LeastI_ex)
    moreover have "\<forall>j<m. \<not> isValidSecretKey ((sha256 L ^^ j) key)"
      unfolding m_def using not_less_Least by blast
    ultimately have "ensureValidPrivateKey L key = Some ((sha256 L ^^ m) key)"
      by (rule ensureValidPrivateKey_first_valid_iterate)
    with n show False by simp
  qed
next
  assume a: "\<forall>i. \<not> isValidSecretKey ((sha256 L ^^ i) key)"
  show "ensureValidPrivateKey L key = None"
  proof (cases "ensureValidPrivateKey L key")
    case None
    then show ?thesis .
  next
    case (Some k)
    from ensureValidPrivateKey_Some_iterate [OF this] a show ?thesis by auto
  qed
qed

subsection \<open>Text encoding of ASCII strings\<close>

lemma digits_less: "2 \<le> b \<Longrightarrow> \<forall>d\<in>set (digits b n). d < b"
proof (induction b n rule: digits.induct)
  case (1 b n)
  show ?case
  proof (cases "n < b")
    case True
    then show ?thesis by (simp add: digits.simps [of b n])
  next
    case False
    with 1 show ?thesis by (simp add: digits.simps [of b n])
  qed
qed

lemma TextEncoder_encode_ascii:
  "\<forall>c\<in>set s. c < 0x80 \<Longrightarrow> TextEncoder_encode s = map ucast s"
proof -
  have sc: "\<forall>c\<in>set s. c < 0x80 \<Longrightarrow> utf16_scalars s = map unat s" for s
  proof (induction s rule: utf16_scalars.induct)
    case 1
    then show ?case by simp
  next
    case (2 u)
    then have "u < 0x80" by simp
    then have "\<not> is_lead u" "\<not> is_trail u"
      by (simp_all add: is_lead_def is_trail_def word_le_nat_alt word_less_nat_alt)
    then show ?case by simp
  next
    case (3 u l rest)
    then have "u < 0x80" by simp
    then have "\<not> is_lead u" "\<not> is_trail u"
      by (simp_all add: is_lead_def is_trail_def word_le_nat_alt word_less_nat_alt)
    with 3 show ?case by simp
  qed
  have u8: "c < 0x80 \<Longrightarrow> utf8_bytes (unat c) = [ucast c]" for c :: jschar
    by (simp add: utf8_bytes_def word_less_nat_alt)
  assume a: "\<forall>c\<in>set s. c < 0x80"
  then have "concat (map utf8_bytes (map unat s)) = map ucast s"
    by (induction s) (simp_all add: u8)
  with sc [OF a] show ?thesis by (simp add: TextEncoder_encode_def)
qed


lemma TextEncoder_encode_prefix:
  "TextEncoder_encode (0x19 # js ''Ethereum Signed Message:'' @ [0x0A]) = personal_message_prefix"
  by (simp add: TextEncoder_encode_def utf8_bytes_def is_lead_def is_trail_def js_def
      personal_message_prefix_def)

lemma TextEncoder_encode_decimal: "TextEncoder_encode (toString 10 n) = ascii_decimal n"
proof -
  have d: "\<forall>d\<in>set (digits 10 n). d < 10"
    using digits_less [of 10 n] by simp
  have lt: "\<forall>c\<in>set (toString 10 n). c < 0x80"
  proof
    fix c assume "c \<in> set (toString 10 n)"
    then obtain k where k: "k \<in> set (digits 10 n)" "c = digit_char k"
      by (auto simp: toString_def)
    with d have "k < 10" by blast
    then have "unat c = 48 + k" using k(2) by (simp add: unat_digit_char)
    with \<open>k < 10\<close> show "c < 0x80" by (simp add: word_less_nat_alt)
  qed
  have "map ucast (toString 10 n) = ascii_decimal n"
    unfolding toString_def ascii_decimal_def map_map
  proof (rule map_cong [OF refl])
    fix k assume "k \<in> set (digits 10 n)"
    with d have k: "k < 10" by blast
    have "(ucast (digit_char k) :: byte) = of_nat (unat (digit_char k))" by simp
    also have "\<dots> = of_nat (48 + k)" using k by (simp only: unat_digit_char) simp
    finally show "(ucast \<circ> digit_char) k = (of_nat (48 + k) :: byte)" by simp
  qed
  with TextEncoder_encode_ascii [OF lt] show ?thesis by simp
qed

lemma prefixMessage_buffer: "prefixMessage msg = Inr (personal_message_buffer msg)"
  by (simp add: prefixMessage_def TextEncoder_encode_prefix TextEncoder_encode_decimal
      Uint8Array_new_def Uint8Array_set_def bindE_def Let_def personal_message_buffer_def
      replicate_add [symmetric])

subsection \<open>Valid scalars\<close>

lemma numToBytesBE_zero: "numToBytesBE k 0 = replicate k 0"
  by (induction k) (simp_all add: replicate_append_same)

lemma CURVE_N_less: "CURVE_N < 256 ^ 32"
  by (simp add: CURVE_N_def)

lemma isValidSecretKey_numToBytesBE:
  "isValidSecretKey (numToBytesBE 32 n) \<longleftrightarrow> 1 \<le> n mod 256 ^ 32 \<and> n mod 256 ^ 32 < CURVE_N"
  by (simp only: isValidSecretKey_def length_numToBytesBE bytesToNumBE_numToBytesBE) simp

lemma isValidSecretKey_numToBytesBE_I:
  "1 \<le> n \<Longrightarrow> n < CURVE_N \<Longrightarrow> isValidSecretKey (numToBytesBE 32 n)"
proof -
  assume n: "1 \<le> n" "n < CURVE_N"
  with CURVE_N_less have "n mod 256 ^ 32 = n" by simp
  with n show ?thesis by (simp only: isValidSecretKey_numToBytesBE)
qed

lemma bytesToNumBE_Cons: "bytesToNumBE (b # bs) = unat b * 256 ^ length bs + bytesToNumBE bs"
proof (induction bs arbitrary: b rule: rev_induct)
  case Nil
  then show ?case by (simp add: bytesToNumBE_def)
next
  case (snoc x xs)
  have "bytesToNumBE (b # xs @ [x]) = bytesToNumBE ((b # xs) @ [x])" by simp
  also have "\<dots> = bytesToNumBE (b # xs) * 256 + unat x" by (rule bytesToNumBE_snoc)
  finally show ?case by (simp add: snoc.IH bytesToNumBE_snoc algebra_simps)
qed

lemma bytesToNumBE_zeros: "bytesToNumBE (replicate k 0 @ bs) = bytesToNumBE bs"
  by (induction k) (simp_all add: bytesToNumBE_Cons)

lemma demo_hash_valid: "isValidSecretKey (demo_hash x)"
proof -
  let ?a = "of_nat (length x) :: byte" and ?b = "sum_list x"
  have n: "bytesToNumBE (demo_hash x) = unat ?a * 65536 + unat ?b * 256 + 1"
    unfolding demo_hash_def by (simp only: bytesToNumBE_zeros) (simp add: bytesToNumBE_def)
  have "unat ?a < 256" "unat ?b < 256"
    using unsigned_less [of ?a] unsigned_less [of ?b] by simp_all
  then have "bytesToNumBE (demo_hash x) < 16777216" "1 \<le> bytesToNumBE (demo_hash x)"
    using n by simp_all
  moreover have "length (demo_hash x) = 32" by (simp add: demo_hash_def)
  ultimately show ?thesis by (simp add: isValidSecretKey_def CURVE_N_def)
qed

lemma rehash_contract_demo_lib: "rehash_contract demo_lib"
  unfolding rehash_contract_def
proof
  fix x
  have "isValidSecretKey ((sha256 demo_lib ^^ 1) x)"
    by (simp add: demo_lib_def demo_hash_valid)
  then show "\<exists>i. isValidSecretKey ((sha256 demo_lib ^^ i) x)" by blast
qed

subsection \<open>Key derivation\<close>

lemma ensureValidPrivateKey_valid:
  "isValidSecretKey key \<Longrightarrow> ensureValidPrivateKey L key = Some key"
  by (subst ensureValidPrivateKey.simps) simp

lemma ensureValidPrivateKey_Some_valid:
  "ensureValidPrivateKey L key = Some k \<Longrightarrow> isValidSecretKey k"
  using ensureValidPrivateKey_Some_iterate [of L key k] by blast

lemma ensureValidPrivateKey_total:
  assumes "rehash_contract L"
  shows "\<exists>k. ensureValidPrivateKey L key = Some k \<and> isValidSecretKey k"
proof (cases "ensureValidPrivateKey L key")
  case None
  then have "\<forall>i. \<not> isValidSecretKey ((sha256 L ^^ i) key)"
    by (simp add: ensureValidPrivateKey_None_iff)
  with assms show ?thesis unfolding rehash_contract_def by blast
next
  case (Some k)
  with ensureValidPrivateKey_Some_valid [OF Some] show ?thesis by simp
qed

text \<open>
  Claim C2. Whenever \<^verbatim>\<open>deriveSigningKey\<close> returns, the key is a 32-byte scalar \<open>k\<close> with
  \<open>1 \<le> k < n\<close> for the order \<open>n\<close> of secp256k1, and the world is as it was. It returns
  for every credential id, user id and optional salt, provided re-hashing with the
  library's SHA-256 reaches a valid scalar from every start, which is the only way out
  of the retry loop.
\<close>

theorem deriveSigningKey_valid_scalar:
  "(deriveSigningKey L credentialId userId salt_opt w = Some (k, w')
      \<longrightarrow> length k = 32 \<and> 1 \<le> bytesToNumBE k \<and> bytesToNumBE k < CURVE_N \<and> w' = w)
   \<and> (rehash_contract L
      \<longrightarrow> (\<exists>k. deriveSigningKey L credentialId userId salt_opt w = Some (k, w)
               \<and> length k = 32 \<and> 1 \<le> bytesToNumBE k \<and> bytesToNumBE k < CURVE_N))"
proof -
  have a: "length k = 32 \<and> 1 \<le> bytesToNumBE k \<and> bytesToNumBE k < CURVE_N \<and> w' = w"
    if "deriveSigningKey L credentialId userId salt_opt w = Some (k, w')"
  proof -
    from that obtain c where "ensureValidPrivateKey L c = Some k" and "w' = w"
      by (auto simp: deriveSigningKey_def Let_def)
    with ensureValidPrivateKey_Some_valid [of L c k] show ?thesis
      by (simp add: isValidSecretKey_def)
  qed
  have b: "\<exists>k. deriveSigningKey L credentialId userId salt_opt w = Some (k, w)
               \<and> length k = 32 \<and> 1 \<le> bytesToNumBE k \<and> bytesToNumBE k < CURVE_N"
    if r: "rehash_contract L"
  proof -
    let ?c = "hkdf L (TextEncoder_encode (credentialId @ userId)) salt_opt
                (TextEncoder_encode (js ''passface-signing-key-v1'')) 32"
    from ensureValidPrivateKey_total [OF r, of ?c]
    obtain k where "ensureValidPrivateKey L ?c = Some k" "isValidSecretKey k" by blast
    then show ?thesis
      by (simp add: deriveSigningKey_def Let_def isValidSecretKey_def)
  qed
  from a b show ?thesis by blast
qed

lemma encode_credential_and_user:
  "TextEncoder_encode (js ''V3QxMjM0NTY3ODkwYWJjZGVm'' @ js ''user-123'')
     = [86, 51, 81, 120, 77, 106, 77, 48, 78, 84, 89, 51, 79, 68, 107, 119, 89, 87, 74, 106,
        90, 71, 86, 109, 117, 115, 101, 114, 45, 49, 50, 51]"
  by (simp add: TextEncoder_encode_def utf8_bytes_def is_lead_def is_trail_def js_def)

lemma encode_signing_info:
  "TextEncoder_encode (js ''passface-signing-key-v1'')
     = [112, 97, 115, 115, 102, 97, 99, 101, 45, 115, 105, 103, 110, 105, 110, 103, 45, 107,
        101, 121, 45, 118, 49]"
  by (simp add: TextEncoder_encode_def utf8_bytes_def is_lead_def is_trail_def js_def)

lemma demo_derived_key:
  "deriveSigningKey demo_lib (js ''V3QxMjM0NTY3ODkwYWJjZGVm'') (js ''user-123'') None demo_world
     = Some (replicate 29 0 @ [55, 31, 1], demo_world)"
proof -
  have dk: "demo_hkdf (TextEncoder_encode (js ''V3QxMjM0NTY3ODkwYWJjZGVm'' @ js ''user-123''))
      None (TextEncoder_encode (js ''passface-signing-key-v1'')) 32 = replicate 29 0 @ [55, 31, 1]"
    by (simp only: encode_credential_and_user encode_signing_info)
       (simp add: demo_hkdf_def demo_hash_def)
  have v: "isValidSecretKey (replicate 29 0 @ [55, 31, 1])"
    by (simp only: isValidSecretKey_def bytesToNumBE_zeros)
       (simp add: bytesToNumBE_def CURVE_N_def)
  show ?thesis
    by (simp only: deriveSigningKey_def Let_def demo_lib_def crypto_lib.simps dk
        ensureValidPrivateKey_valid [OF v] option.map)
qed

theorem deriveSigningKey_valid_scalar_witness:
  "deriveSigningKey demo_lib (js ''V3QxMjM0NTY3ODkwYWJjZGVm'') (js ''user-123'') None demo_world
     = Some (replicate 29 0 @ [55, 31, 1], demo_world)
   \<and> length (replicate 29 0 @ [55, 31, 1 :: byte]) = 32
   \<and> 1 \<le> bytesToNumBE (replicate 29 0 @ [55, 31, 1])
   \<and> bytesToNumBE (replicate 29 0 @ [55, 31, 1]) < CURVE_N
   \<and> (\<exists>k. deriveSigningKey demo_lib (js ''V3QxMjM0NTY3ODkwYWJjZGVm'') (js ''user-123'') None
              demo_world = Some (k, demo_world))"
  using deriveSigningKey_valid_scalar [where L = demo_lib
      and credentialId = "js ''V3QxMjM0NTY3ODkwYWJjZGVm''" and userId = "js ''user-123''"
      and salt_opt = None and w = demo_world and w' = demo_world
      and k = "replicate 29 0 @ [55, 31, 1]"]
    demo_derived_key rehash_contract_demo_lib
  by (simp only: simp_thms) blast

subsection \<open>Hexadecimal text of single bytes\<close>

lemma hex_fixed_2: "hex_fixed 2 n = [digit_char (n div 16 mod 16), digit_char (n mod 16)]"
  by (simp add: numeral_2_eq_2)

lemma padStart_byte:
  "padStart 2 (digit_char 0) (toString 16 (unat (b :: byte))) = hex_of_byte b"
proof -
  have lt: "unat b < 16 ^ 2" using unsigned_less [of b] by simp
  then have d: "unat b div 16 < 16" by simp
  have "padStart 2 (digit_char 0) (toString 16 (unat b)) = hex_fixed 2 (unat b)"
    using lt by (rule padStart_toString16) simp
  with d show ?thesis by (simp add: hex_fixed_2 hex_of_byte_def)
qed

lemma concat_padStart_bytes:
  "concat (map (\<lambda>b. padStart 2 (digit_char 0) (toString 16 (unat b))) bs) = hex_of_bytes bs"
  by (simp add: padStart_byte hex_of_bytes_def)

lemma length_hex_of_bytes [simp]: "length (hex_of_bytes bs) = 2 * length bs"
  by (induction bs) (simp_all add: hex_of_bytes_def hex_of_byte_def)

lemma is_lower_hex_hex_of_bytes: "list_all is_lower_hex (hex_of_bytes bs)"
proof (induction bs)
  case Nil
  then show ?case by (simp add: hex_of_bytes_def)
next
  case (Cons b bs)
  have "unat b < 256" using unsigned_less [of b] by simp
  then have "unat b div 16 < 16" "unat b mod 16 < 16" by simp_all
  then have "list_all is_lower_hex (hex_of_byte b)"
    by (simp add: hex_of_byte_def is_lower_hex_digit_char)
  with Cons show ?case by (simp add: hex_of_bytes_def)
qed

lemma replicate_numeral: "replicate (numeral k) x = x # replicate (pred_numeral k) x"
  by (simp add: numeral_eq_Suc)

lemma length_js [simp]: "length (js s) = length s"
  by (simp add: js_def)

text \<open>
  Claim C10. \<^verbatim>\<open>getEthereumAddress\<close> reads nothing but the private key and leaves the
  world as it was. When the library returns the uncompressed public key \<open>0x04 || x || y\<close>,
  the address is \<^verbatim>\<open>0x\<close> followed by the 40 lower-case hexadecimal characters of the last
  20 bytes of the SHA-256 hash of \<open>x || y\<close>: the hash the source calls is \<^verbatim>\<open>sha256\<close>,
  under a comment that says Keccak-256.
\<close>

theorem getEthereumAddress_sha256_last_20_bytes:
  assumes "hash_contract L"
    and "getPublicKey_lib L privateKey False = Inr (4 # xy)"
  shows "getEthereumAddress L privateKey w
           = (Inr (js ''0x'' @ hex_of_bytes (drop 12 (sha256 L xy))), w)
         \<and> length (drop 12 (sha256 L xy)) = 20
         \<and> length (js ''0x'' @ hex_of_bytes (drop 12 (sha256 L xy))) = 42
         \<and> list_all is_lower_hex (hex_of_bytes (drop 12 (sha256 L xy)))"
proof -
  from assms(1) have len: "length (sha256 L xy) = 32" by (simp add: hash_contract_def)
  then have "slice_last 20 (sha256 L xy) = drop 12 (sha256 L xy)"
    by (simp add: slice_last_def)
  then have "getEthereumAddress L privateKey w
           = (Inr (js ''0x'' @ hex_of_bytes (drop 12 (sha256 L xy))), w)"
    using assms(2)
    by (simp add: getEthereumAddress_def bindE_def slice_from_def Let_def concat_padStart_bytes)
  with len show ?thesis by (simp add: is_lower_hex_hex_of_bytes)
qed

lemma hash_contract_demo_lib: "hash_contract demo_lib"
  by (simp add: hash_contract_def demo_lib_def demo_hash_def)

lemma valid_key_one: "isValidSecretKey (replicate 31 0 @ [1])"
  by (simp only: isValidSecretKey_def bytesToNumBE_zeros)
     (simp add: bytesToNumBE_def CURVE_N_def)

theorem getEthereumAddress_sha256_last_20_bytes_witness:
  "getEthereumAddress demo_lib (replicate 31 0 @ [1]) demo_world
     = (Inr (js ''0x0000000000000000000000000000000000400201''), demo_world)"
proof -
  let ?k = "replicate 31 0 @ [1 :: byte]"
  have pk: "getPublicKey_lib demo_lib ?k False = Inr (4 # ?k @ ?k)"
    using valid_key_one by (simp add: demo_lib_def demo_getPublicKey_def)
  have h: "sha256 demo_lib (?k @ ?k) = replicate 29 0 @ [64, 2, 1]"
    by (simp add: demo_lib_def demo_hash_def sum_list_replicate)
  have hx: "js ''0x'' @ hex_of_bytes (drop 12 (replicate 29 0 @ [64, 2, 1]))
      = js ''0x0000000000000000000000000000000000400201''"
    by (simp add: hex_of_bytes_def hex_of_byte_def digit_char_def js_def replicate_numeral)
  from getEthereumAddress_sha256_last_20_bytes [OF hash_contract_demo_lib pk, of demo_world]
  show ?thesis by (simp only: h hx)
qed

text \<open>
  Claim C3. Key derivation and signing draw nothing from the world: two calls of
  \<^verbatim>\<open>deriveSigningKey\<close> on the same credential id, user id and salt return the same key
  in any two worlds, that is whatever the entropy source, the clock and the key store
  hold, and so do two calls of \<^verbatim>\<open>signMessage\<close> on the same message and key; both
  leave the world as it was. The signature of a message under the derived key is
  therefore fixed by the identifiers and the message.
\<close>

theorem derivation_and_signing_deterministic:
  "map_option fst (deriveSigningKey L credentialId userId salt_opt w1)
     = map_option fst (deriveSigningKey L credentialId userId salt_opt w2)
   \<and> map_option snd (deriveSigningKey L credentialId userId salt_opt w1)
     = map_option (\<lambda>r. w1) (deriveSigningKey L credentialId userId salt_opt w1)
   \<and> fst (signMessage L msg privateKey w1) = fst (signMessage L msg privateKey w2)
   \<and> snd (signMessage L msg privateKey w1) = w1
   \<and> map_option (\<lambda>(k, w). fst (signMessage L msg k w))
        (deriveSigningKey L credentialId userId salt_opt w1)
     = map_option (\<lambda>(k, w). fst (signMessage L msg k w))
        (deriveSigningKey L credentialId userId salt_opt w2)"
  by (simp add: deriveSigningKey_def signMessage_def Let_def option.map_comp comp_def)

subsection \<open>Signing and verification\<close>

lemma pow_256_32: "(256 :: nat) ^ 32 = 16 ^ 64"
  by simp

lemma hex_of_bytes_32: "hex_of_bytes (numToBytesBE 32 n) = hex_fixed 64 n"
  using hex_of_bytes_numToBytesBE [of 32 n] by simp

lemma unat_recovery_plus_27: "unat (rc :: byte) \<le> 3 \<Longrightarrow> unat (rc + 27) = unat rc + 27"
  by (simp add: unat_word_ariths)

lemma formatSignature_recovered:
  assumes "r < CURVE_N" and "s < CURVE_N" and "unat (rc :: byte) \<le> 3"
  shows "formatSignature \<lparr>sig_r = r, sig_s = s, sig_recovery = Some (Num (uint rc))\<rparr>
           = js ''0x'' @ hex_fixed 64 r @ hex_fixed 64 s @ hex_of_byte (rc + 27)"
proof -
  from assms(1,2) CURVE_N_less have "r < 16 ^ 64" "s < 16 ^ 64"
    by (simp_all only: pow_256_32)
  then have r: "padStart 64 (digit_char 0) (toString 16 r) = hex_fixed 64 r"
    and s: "padStart 64 (digit_char 0) (toString 16 s) = hex_fixed 64 s"
    by (simp_all add: padStart_toString16)
  have "nat (uint rc + 27) = unat (rc + 27)"
    using unat_recovery_plus_27 [OF assms(3)] by (simp add: nat_add_distrib)
  moreover have "\<not> uint rc + 27 < 0"
    using uint_ge_0 [of rc] by linarith
  ultimately have v: "padStart 2 (digit_char 0) (number_toString16 (Num (uint rc + 27)))
      = hex_of_byte (rc + 27)"
    by (simp add: number_toString16_def padStart_byte)
  show ?thesis
    by (simp add: formatSignature_def Let_def r s v)
qed

lemma Signature_fromBytes_recovered_lib:
  assumes "1 \<le> r" and "r < CURVE_N" and "1 \<le> s" and "s < CURVE_N"
  shows "Signature_fromBytes_recovered (rc # numToBytesBE 32 r @ numToBytesBE 32 s)
           = Inr \<lparr>sig_r = r, sig_s = s, sig_recovery = Some (Num (uint rc))\<rparr>"
proof -
  from assms CURVE_N_less have m: "r mod 256 ^ 32 = r" "s mod 256 ^ 32 = s" by simp_all
  have a: "slice 1 33 (rc # numToBytesBE 32 r @ numToBytesBE 32 s) = numToBytesBE 32 r"
    by (simp add: slice_def)
  have b: "slice 33 65 (rc # numToBytesBE 32 r @ numToBytesBE 32 s) = numToBytesBE 32 s"
    by (simp add: slice_def)
  show ?thesis
    using assms
    by (simp only: Signature_fromBytes_recovered_def a b bytesToNumBE_numToBytesBE m
        Signature_new_def) simp
qed

lemma sigHex_of_0x: "sigHex_of (js ''0x'' @ body) = body"
  by (simp add: sigHex_of_def startsWith_def slice_from_def js_def)

lemma verifySignature_try_formatted:
  assumes "1 \<le> r" and "r < CURVE_N" and "1 \<le> s" and "s < CURVE_N"
  shows "verifySignature_try L msg (js ''0x'' @ hex_fixed 64 r @ hex_fixed 64 s @ rest) publicKey
           = verifyAsync L (numToBytesBE 32 r @ numToBytesBE 32 s)
               (sha256 L (personal_message_buffer (messageBytes msg))) publicKey"
proof -
  from assms(2,4) CURVE_N_less have "r < 16 ^ 64" "s < 16 ^ 64"
    by (simp_all only: pow_256_32)
  then have m: "r mod 16 ^ 64 = r" "s mod 16 ^ 64 = s" by simp_all
  have a: "slice 0 64 (hex_fixed 64 r @ hex_fixed 64 s @ rest) = hex_fixed 64 r"
    by (simp add: slice_def)
  have b: "slice 64 128 (hex_fixed 64 r @ hex_fixed 64 s @ rest) = hex_fixed 64 s"
    by (simp add: slice_def)
  have pr: "BigInt_0x (hex_fixed 64 r) = Inr r" and ps: "BigInt_0x (hex_fixed 64 s) = Inr s"
    using BigInt_0x_hex_fixed [of 64 r] BigInt_0x_hex_fixed [of 64 s] m by simp_all
  show ?thesis
    using assms
    by (simp add: verifySignature_try_def prefixMessage_buffer bindE_def Let_def sigHex_of_0x
        a b pr ps Signature_new_def Signature_toBytes_compact_def)
qed

lemma signMessage_by_contract:
  assumes "ecdsa_contract L" and "hash_contract L" and "isValidSecretKey privateKey"
  shows "\<exists>rc r s pk.
           signAsync L (sha256 L (personal_message_buffer (messageBytes msg))) privateKey
             = Inr (rc # numToBytesBE 32 r @ numToBytesBE 32 s)
           \<and> unat rc \<le> 3 \<and> 1 \<le> r \<and> r < CURVE_N \<and> 1 \<le> s \<and> s < CURVE_N
           \<and> getPublicKey_lib L privateKey True = Inr pk
           \<and> verifyAsync L (numToBytesBE 32 r @ numToBytesBE 32 s)
                (sha256 L (personal_message_buffer (messageBytes msg))) pk = Inr True
           \<and> signMessage L msg privateKey w
             = (Inr (js ''0x'' @ hex_fixed 64 r @ hex_fixed 64 s @ hex_of_byte (rc + 27)), w)"
proof -
  let ?h = "sha256 L (personal_message_buffer (messageBytes msg))"
  from assms(2) have "length ?h = 32" by (simp add: hash_contract_def)
  with assms(1,3) obtain rc r s pk where c:
    "signAsync L ?h privateKey = Inr (rc # numToBytesBE 32 r @ numToBytesBE 32 s)"
    "unat rc \<le> 3" "1 \<le> r" "r < CURVE_N" "1 \<le> s" "s < CURVE_N"
    "getPublicKey_lib L privateKey True = Inr pk"
    "verifyAsync L (numToBytesBE 32 r @ numToBytesBE 32 s) ?h pk = Inr True"
    unfolding ecdsa_contract_def by blast
  have "signMessage L msg privateKey w
      = (Inr (js ''0x'' @ hex_fixed 64 r @ hex_fixed 64 s @ hex_of_byte (rc + 27)), w)"
    by (simp add: signMessage_def prefixMessage_buffer bindE_def Let_def c(1)
        Signature_fromBytes_recovered_lib [OF c(3,4,5,6)]
        formatSignature_recovered [OF c(4,6,2)])
  with c show ?thesis by blast
qed

lemma ecdsa_contract_demo_lib: "ecdsa_contract demo_lib"
  unfolding ecdsa_contract_def
proof (intro allI impI)
  fix h k :: bytes
  assume a: "length h = 32 \<and> isValidSecretKey k"
  then have lk: "length k = 32" and rk: "1 \<le> bytesToNumBE k" "bytesToNumBE k < CURVE_N"
    by (simp_all add: isValidSecretKey_def)
  let ?d = "demo_hash (h @ k)"
  have vd: "isValidSecretKey ?d" by (rule demo_hash_valid)
  then have ld: "length ?d = 32" and rd: "1 \<le> bytesToNumBE ?d" "bytesToNumBE ?d < CURVE_N"
    by (simp_all add: isValidSecretKey_def)
  have bk: "numToBytesBE 32 (bytesToNumBE k) = k"
    using numToBytesBE_bytesToNumBE [of k] lk by simp
  have bd: "numToBytesBE 32 (bytesToNumBE ?d) = ?d"
    using numToBytesBE_bytesToNumBE [of ?d] ld by simp
  have s: "signAsync demo_lib h k
      = Inr (0 # numToBytesBE 32 (bytesToNumBE k) @ numToBytesBE 32 (bytesToNumBE ?d))"
    using a by (simp add: demo_lib_def demo_sign_def bk bd)
  have p: "getPublicKey_lib demo_lib k True = Inr (2 # k)"
    using a by (simp add: demo_lib_def demo_getPublicKey_def)
  have v: "verifyAsync demo_lib
      (numToBytesBE 32 (bytesToNumBE k) @ numToBytesBE 32 (bytesToNumBE ?d)) h (2 # k) = Inr True"
    using a lk ld by (simp add: demo_lib_def demo_verify_def bk bd)
  show "\<exists>rc r s pk. signAsync demo_lib h k = Inr (rc # numToBytesBE 32 r @ numToBytesBE 32 s)
      \<and> unat rc \<le> 3 \<and> 1 \<le> r \<and> r < CURVE_N \<and> 1 \<le> s \<and> s < CURVE_N
      \<and> getPublicKey_lib demo_lib k True = Inr pk
      \<and> verifyAsync demo_lib (numToBytesBE 32 r @ numToBytesBE 32 s) h pk = Inr True"
    using s p v rk rd
    by (intro exI [of _ 0] exI [of _ "bytesToNumBE k"] exI [of _ "bytesToNumBE ?d"]
        exI [of _ "2 # k"]) simp
qed

lemma hex_of_bytes_of_number:
  "length bs = 32 \<Longrightarrow> hex_fixed 64 (bytesToNumBE bs) = hex_of_bytes bs"
  using hex_of_bytes_32 [of "bytesToNumBE bs"] numToBytesBE_bytesToNumBE [of bs] by simp

lemma verifySignature_try_formatted_bytes:
  assumes "isValidSecretKey rb" and "isValidSecretKey sb"
  shows "verifySignature_try L msg (js ''0x'' @ hex_of_bytes rb @ hex_of_bytes sb @ rest) publicKey
           = verifyAsync L (rb @ sb) (sha256 L (personal_message_buffer (messageBytes msg)))
               publicKey"
proof -
  from assms have l: "length rb = 32" "length sb = 32"
    and r: "1 \<le> bytesToNumBE rb" "bytesToNumBE rb < CURVE_N"
    and s: "1 \<le> bytesToNumBE sb" "bytesToNumBE sb < CURVE_N"
    by (simp_all add: isValidSecretKey_def)
  have b: "numToBytesBE 32 (bytesToNumBE rb) = rb" "numToBytesBE 32 (bytesToNumBE sb) = sb"
    using numToBytesBE_bytesToNumBE [of rb] numToBytesBE_bytesToNumBE [of sb] l by simp_all
  from verifySignature_try_formatted [OF r s, of L msg rest publicKey]
  show ?thesis by (simp only: hex_of_bytes_of_number [OF l(1)] hex_of_bytes_of_number [OF l(2)] b)
qed

lemma encode_hello_world:
  "messageBytes (MString (js ''Hello World'')) = [72, 101, 108, 108, 111, 32, 87, 111, 114, 108, 100]"
  by (simp add: messageBytes_def TextEncoder_encode_def utf8_bytes_def is_lead_def is_trail_def
      js_def)

lemma demo_hash_hello_world:
  "sha256 demo_lib (personal_message_buffer (messageBytes (MString (js ''Hello World''))))
     = replicate 29 0 @ [39, 121, 1]"
proof -
  have len: "length [72, 101, 108, 108, 111, 32, 87, 111, 114, 108, 100 :: byte] = 11"
    by simp
  have dec: "ascii_decimal 11 = [49, 49]"
    by (simp add: ascii_decimal_def digits.simps [of 10 11] digits.simps [of 10 1]
        digits.simps [of 10 "Suc 0"])
  have "personal_message_buffer [72, 101, 108, 108, 111, 32, 87, 111, 114, 108, 100]
      = personal_message_prefix @ [49, 49, 72, 101, 108, 108, 111, 32, 87, 111, 114, 108, 100]"
    by (simp only: personal_message_buffer_def len dec) simp
  then show ?thesis
    by (simp only: encode_hello_world) (simp add: personal_message_prefix_def demo_lib_def demo_hash_def)
qed

lemma demo_signAsync_hello_world:
  "signAsync demo_lib (replicate 29 0 @ [39, 121, 1]) (replicate 31 0 @ [1])
     = Inr (0 # (replicate 31 0 @ [1]) @ (replicate 29 0 @ [64, 162, 1]))"
  using valid_key_one
  by (simp add: demo_lib_def demo_sign_def demo_hash_def sum_list_replicate)

lemma valid_demo_s: "isValidSecretKey (replicate 29 0 @ [64, 162, 1])"
  by (simp only: isValidSecretKey_def bytesToNumBE_zeros)
     (simp add: bytesToNumBE_def CURVE_N_def)

lemma hex_demo_r:
  "hex_of_bytes (replicate 31 0 @ [1])
     = js ''0000000000000000000000000000000000000000000000000000000000000001''"
  by (simp add: hex_of_bytes_def hex_of_byte_def digit_char_def js_def replicate_numeral)

lemma hex_demo_s:
  "hex_of_bytes (replicate 29 0 @ [64, 162, 1])
     = js ''000000000000000000000000000000000000000000000000000000000040a201''"
  by (simp add: hex_of_bytes_def hex_of_byte_def digit_char_def js_def replicate_numeral)

lemma hex_demo_v: "hex_of_byte (0 + 27) = js ''1b''"
  by (simp add: hex_of_byte_def digit_char_def js_def)

text \<open>
  Claim C5. For every message and valid key, with a library that signs as its contract
  says, \<^verbatim>\<open>signMessage\<close> returns \<^verbatim>\<open>0x\<close> followed by 130 lower-case hexadecimal
  characters: the 32 big-endian bytes of \<open>r\<close> as 64 characters, the 32 big-endian bytes of
  \<open>s\<close> as 64 characters, and the byte \<open>v = recovery id + 27\<close> as 2 characters, where
  the recovery id, \<open>r\<close> and \<open>s\<close> are what the library's signer returned for the SHA-256
  hash of the prefixed message.
\<close>

theorem signMessage_wire_format:
  assumes "ecdsa_contract L" and "hash_contract L" and "isValidSecretKey privateKey"
  shows "\<exists>rc r s.
           signAsync L (sha256 L (personal_message_buffer (messageBytes msg))) privateKey
             = Inr (rc # numToBytesBE 32 r @ numToBytesBE 32 s)
           \<and> unat rc \<le> 3 \<and> unat (rc + 27) = unat rc + 27
           \<and> signMessage L msg privateKey w
             = (Inr (js ''0x'' @ hex_of_bytes (numToBytesBE 32 r)
                      @ hex_of_bytes (numToBytesBE 32 s) @ hex_of_byte (rc + 27)), w)
           \<and> length (hex_of_bytes (numToBytesBE 32 r)) = 64
           \<and> length (hex_of_bytes (numToBytesBE 32 s)) = 64
           \<and> length (hex_of_byte (rc + 27)) = 2
           \<and> list_all is_lower_hex (hex_of_bytes (numToBytesBE 32 r)
                @ hex_of_bytes (numToBytesBE 32 s) @ hex_of_byte (rc + 27))"
proof -
  from signMessage_by_contract [OF assms, of msg w] obtain rc r s where c:
    "signAsync L (sha256 L (personal_message_buffer (messageBytes msg))) privateKey
       = Inr (rc # numToBytesBE 32 r @ numToBytesBE 32 s)"
    "unat rc \<le> 3"
    "signMessage L msg privateKey w
       = (Inr (js ''0x'' @ hex_fixed 64 r @ hex_fixed 64 s @ hex_of_byte (rc + 27)), w)"
    by blast
  have v: "hex_of_byte (rc + 27) = hex_of_bytes [rc + 27]"
    by (simp add: hex_of_bytes_def)
  have "list_all is_lower_hex (hex_of_bytes [rc + 27])"
    by (rule is_lower_hex_hex_of_bytes)
  then have low: "list_all is_lower_hex (hex_of_bytes (numToBytesBE 32 r)
      @ hex_of_bytes (numToBytesBE 32 s) @ hex_of_byte (rc + 27))"
    by (simp add: v is_lower_hex_hex_of_bytes)
  show ?thesis
    using c low unat_recovery_plus_27 [OF c(2)]
    by (intro exI [of _ rc] exI [of _ r] exI [of _ s])
       (simp add: hex_of_bytes_32 hex_of_byte_def)
qed

theorem signMessage_wire_format_witness:
  "signMessage demo_lib (MString (js ''Hello World'')) (replicate 31 0 @ [1]) demo_world
     = (Inr (js ''0x''
          @ js ''0000000000000000000000000000000000000000000000000000000000000001''
          @ js ''000000000000000000000000000000000000000000000000000000000040a201''
          @ js ''1b''), demo_world)"
proof -
  let ?k = "replicate 31 0 @ [1 :: byte]" and ?d = "replicate 29 0 @ [64, 162, 1 :: byte]"
  from signMessage_wire_format [OF ecdsa_contract_demo_lib hash_contract_demo_lib valid_key_one,
      of "MString (js ''Hello World'')" demo_world]
  obtain rc r s where c:
    "signAsync demo_lib
       (sha256 demo_lib (personal_message_buffer (messageBytes (MString (js ''Hello World'')))))
       ?k = Inr (rc # numToBytesBE 32 r @ numToBytesBE 32 s)"
    "signMessage demo_lib (MString (js ''Hello World'')) ?k demo_world
       = (Inr (js ''0x'' @ hex_of_bytes (numToBytesBE 32 r)
                @ hex_of_bytes (numToBytesBE 32 s) @ hex_of_byte (rc + 27)), demo_world)"
    by blast
  from c(1) have "rc # numToBytesBE 32 r @ numToBytesBE 32 s = 0 # ?k @ ?d"
    by (simp only: demo_hash_hello_world demo_signAsync_hello_world sum.inject)
  then have z: "rc = 0" and ap: "numToBytesBE 32 r @ numToBytesBE 32 s = ?k @ ?d"
    by (simp_all only: list.inject)
  have "length (numToBytesBE 32 r) = length ?k" by simp
  with ap have "numToBytesBE 32 r = ?k \<and> numToBytesBE 32 s = ?d"
    using append_eq_append_conv [of "numToBytesBE 32 r" ?k "numToBytesBE 32 s" ?d] by blast
  with z have e: "rc = 0" "numToBytesBE 32 r = ?k" "numToBytesBE 32 s = ?d" by simp_all
  show ?thesis
    by (simp only: c(2) e hex_demo_r hex_demo_s hex_demo_v)
qed

lemma demo_signMessage_hello_world:
  "signMessage demo_lib (MString (js ''Hello World'')) (replicate 31 0 @ [1]) demo_world
     = (Inr (js ''0x''
          @ js ''0000000000000000000000000000000000000000000000000000000000000001''
          @ js ''000000000000000000000000000000000000000000000000000000000040a201''
          @ js ''1b''), demo_world)"
proof -
  let ?k = "replicate 31 0 @ [1 :: byte]" and ?d = "replicate 29 0 @ [64, 162, 1 :: byte]"
  from signMessage_by_contract [OF ecdsa_contract_demo_lib hash_contract_demo_lib valid_key_one,
      of "MString (js ''Hello World'')" demo_world]
  obtain rc r s where c:
    "signAsync demo_lib
       (sha256 demo_lib (personal_message_buffer (messageBytes (MString (js ''Hello World'')))))
       ?k = Inr (rc # numToBytesBE 32 r @ numToBytesBE 32 s)"
    "signMessage demo_lib (MString (js ''Hello World'')) ?k demo_world
       = (Inr (js ''0x'' @ hex_fixed 64 r @ hex_fixed 64 s @ hex_of_byte (rc + 27)), demo_world)"
    by blast
  from c(1) have "rc # numToBytesBE 32 r @ numToBytesBE 32 s = 0 # ?k @ ?d"
    by (simp only: demo_hash_hello_world demo_signAsync_hello_world sum.inject)
  then have z: "rc = 0" and ap: "numToBytesBE 32 r @ numToBytesBE 32 s = ?k @ ?d"
    by (simp_all only: list.inject)
  have "length (numToBytesBE 32 r) = length ?k" by simp
  with ap have "numToBytesBE 32 r = ?k \<and> numToBytesBE 32 s = ?d"
    using append_eq_append_conv [of "numToBytesBE 32 r" ?k "numToBytesBE 32 s" ?d] by blast
  then have "hex_fixed 64 r = hex_of_bytes ?k" "hex_fixed 64 s = hex_of_bytes ?d"
    using hex_of_bytes_32 [of r] hex_of_bytes_32 [of s] by simp_all
  with z show ?thesis
    by (simp only: c(2) hex_demo_r hex_demo_s hex_demo_v)
qed

lemma demo_getPublicKey_one:
  "getPublicKey demo_lib (replicate 31 0 @ [1]) = Inr (2 # replicate 31 0 @ [1])"
  using valid_key_one by (simp add: getPublicKey_def demo_lib_def demo_getPublicKey_def)

text \<open>
  Claim C4. For every message and every valid private key, \<^verbatim>\<open>verifySignature\<close> returns
  \<^verbatim>\<open>true\<close> on the message, the signature \<^verbatim>\<open>signMessage\<close> returned for it and the
  public key \<^verbatim>\<open>getPublicKey\<close> returned for the key, with a library whose signatures
  verify as its contract says: the text of the signature is parsed back to the \<open>r\<close> and
  \<open>s\<close> that were formatted, and both functions hash the same buffer.
\<close>

theorem sign_verify_round_trip:
  assumes "ecdsa_contract L" and "hash_contract L" and "isValidSecretKey privateKey"
  shows "\<exists>signature publicKey.
           signMessage L msg privateKey w = (Inr signature, w)
           \<and> getPublicKey L privateKey = Inr publicKey
           \<and> verifySignature L msg signature publicKey w = (Inr True, w)"
proof -
  from signMessage_by_contract [OF assms, of msg w] obtain rc r s pk where c:
    "1 \<le> r" "r < CURVE_N" "1 \<le> s" "s < CURVE_N"
    "getPublicKey_lib L privateKey True = Inr pk"
    "verifyAsync L (numToBytesBE 32 r @ numToBytesBE 32 s)
       (sha256 L (personal_message_buffer (messageBytes msg))) pk = Inr True"
    "signMessage L msg privateKey w
       = (Inr (js ''0x'' @ hex_fixed 64 r @ hex_fixed 64 s @ hex_of_byte (rc + 27)), w)"
    by blast
  have "verifySignature_try L msg
      (js ''0x'' @ hex_fixed 64 r @ hex_fixed 64 s @ hex_of_byte (rc + 27)) pk = Inr True"
    by (simp only: verifySignature_try_formatted [OF c(1,2,3,4)] c(6))
  then have "verifySignature L msg
      (js ''0x'' @ hex_fixed 64 r @ hex_fixed 64 s @ hex_of_byte (rc + 27)) pk w = (Inr True, w)"
    by (simp add: verifySignature_def)
  with c(5,7) show ?thesis by (simp add: getPublicKey_def)
qed

theorem sign_verify_round_trip_witness:
  "signMessage demo_lib (MString (js ''Hello World'')) (replicate 31 0 @ [1]) demo_world
     = (Inr (js ''0x''
          @ js ''0000000000000000000000000000000000000000000000000000000000000001''
          @ js ''000000000000000000000000000000000000000000000000000000000040a201''
          @ js ''1b''), demo_world)
   \<and> getPublicKey demo_lib (replicate 31 0 @ [1]) = Inr (2 # replicate 31 0 @ [1])
   \<and> verifySignature demo_lib (MString (js ''Hello World''))
        (js ''0x''
          @ js ''0000000000000000000000000000000000000000000000000000000000000001''
          @ js ''000000000000000000000000000000000000000000000000000000000040a201''
          @ js ''1b'')
        (2 # replicate 31 0 @ [1]) demo_world
     = (Inr True, demo_world)"
  using sign_verify_round_trip [OF ecdsa_contract_demo_lib hash_contract_demo_lib valid_key_one,
      of "MString (js ''Hello World'')" demo_world]
  by (simp only: demo_signMessage_hello_world demo_getPublicKey_one) simp



lemma verifySignature_total: "\<exists>b. verifySignature L msg signature publicKey w = (Inr b, w)"
  by (cases "verifySignature_try L msg signature publicKey") (auto simp: verifySignature_def)

lemma verifySignature_first_128:
  assumes "slice 0 128 (sigHex_of signature) = slice 0 128 (sigHex_of signature')"
  shows "verifySignature L msg signature publicKey w = verifySignature L msg signature' publicKey w"
proof -
  have a: "slice 0 64 x = slice 0 64 (slice 0 128 x)" for x :: jsstring
    by (simp add: slice_def)
  have b: "slice 64 128 x = slice 64 128 (slice 0 128 x)" for x :: jsstring
    by (simp add: slice_def drop_take)
  have "slice 0 64 (sigHex_of signature) = slice 0 64 (sigHex_of signature')"
    "slice 64 128 (sigHex_of signature) = slice 64 128 (sigHex_of signature')"
    using assms a [of "sigHex_of signature"] a [of "sigHex_of signature'"]
      b [of "sigHex_of signature"] b [of "sigHex_of signature'"] by simp_all
  then show ?thesis
    by (simp add: verifySignature_def verifySignature_try_def Let_def)
qed

text \<open>
  Claim C7, as amended. \<^verbatim>\<open>verifySignature\<close> never throws: for every message, public
  key and signature string it returns a boolean. It returns \<^verbatim>\<open>false\<close> when the first
  or the second 64 characters after an optional \<^verbatim>\<open>0x\<close> do not convert with
  \<^verbatim>\<open>BigInt\<close> (they are empty or not hexadecimal), when \<open>r\<close> or \<open>s\<close> lies outside
  \<open>[1, n - 1]\<close>, and when the library rejects the signature or throws; otherwise it
  returns \<^verbatim>\<open>true\<close>. It reads nothing else of the string: two strings that agree on
  the first 128 characters after the optional \<^verbatim>\<open>0x\<close> get the same answer, whatever
  their lengths and whatever follows.
\<close>

theorem verifySignature_never_throws:
  "(\<exists>b. verifySignature L msg signature publicKey w = (Inr b, w))
   \<and> (BigInt_0x (slice 0 64 (sigHex_of signature)) = Inl e1
        \<longrightarrow> verifySignature L msg signature publicKey w = (Inr False, w))
   \<and> (BigInt_0x (slice 64 128 (sigHex_of signature)) = Inl e2
        \<longrightarrow> verifySignature L msg signature publicKey w = (Inr False, w))
   \<and> (BigInt_0x (slice 0 64 (sigHex_of signature)) = Inr r
        \<and> BigInt_0x (slice 64 128 (sigHex_of signature)) = Inr s
        \<and> \<not> (1 \<le> r \<and> r < CURVE_N \<and> 1 \<le> s \<and> s < CURVE_N)
        \<longrightarrow> verifySignature L msg signature publicKey w = (Inr False, w))
   \<and> (BigInt_0x (slice 0 64 (sigHex_of signature)) = Inr r
        \<and> BigInt_0x (slice 64 128 (sigHex_of signature)) = Inr s
        \<and> 1 \<le> r \<and> r < CURVE_N \<and> 1 \<le> s \<and> s < CURVE_N
        \<longrightarrow> verifySignature L msg signature publicKey w
            = (Inr (verifyAsync L (numToBytesBE 32 r @ numToBytesBE 32 s)
                      (sha256 L (personal_message_buffer (messageBytes msg))) publicKey
                    = Inr True), w))
   \<and> (slice 0 128 (sigHex_of signature) = slice 0 128 (sigHex_of signature')
        \<longrightarrow> verifySignature L msg signature publicKey w
            = verifySignature L msg signature' publicKey w)"
proof -
  have 1: "\<exists>b. verifySignature L msg signature publicKey w = (Inr b, w)"
    by (rule verifySignature_total)
  have 2: "verifySignature L msg signature publicKey w = (Inr False, w)"
    if "BigInt_0x (slice 0 64 (sigHex_of signature)) = Inl e1"
    using that
    by (simp add: verifySignature_def verifySignature_try_def prefixMessage_buffer bindE_def Let_def)
  have 3: "verifySignature L msg signature publicKey w = (Inr False, w)"
    if "BigInt_0x (slice 64 128 (sigHex_of signature)) = Inl e2"
    using that
    by (simp add: verifySignature_def verifySignature_try_def prefixMessage_buffer bindE_def Let_def
        split: sum.splits)
  have 4: "verifySignature L msg signature publicKey w = (Inr False, w)"
    if "BigInt_0x (slice 0 64 (sigHex_of signature)) = Inr r
        \<and> BigInt_0x (slice 64 128 (sigHex_of signature)) = Inr s
        \<and> \<not> (1 \<le> r \<and> r < CURVE_N \<and> 1 \<le> s \<and> s < CURVE_N)"
    using that
    by (auto simp: verifySignature_def verifySignature_try_def prefixMessage_buffer bindE_def Let_def
        Signature_new_def)
  have 5: "verifySignature L msg signature publicKey w
            = (Inr (verifyAsync L (numToBytesBE 32 r @ numToBytesBE 32 s)
                      (sha256 L (personal_message_buffer (messageBytes msg))) publicKey
                    = Inr True), w)"
    if "BigInt_0x (slice 0 64 (sigHex_of signature)) = Inr r
        \<and> BigInt_0x (slice 64 128 (sigHex_of signature)) = Inr s
        \<and> 1 \<le> r \<and> r < CURVE_N \<and> 1 \<le> s \<and> s < CURVE_N"
    using that
    by (auto simp: verifySignature_def verifySignature_try_def prefixMessage_buffer bindE_def Let_def
        Signature_new_def Signature_toBytes_compact_def split: sum.splits)
  have 6: "verifySignature L msg signature publicKey w
            = verifySignature L msg signature' publicKey w"
    if "slice 0 128 (sigHex_of signature) = slice 0 128 (sigHex_of signature')"
    using that by (rule verifySignature_first_128)
  from 1 2 3 4 5 6 show ?thesis by blast
qed


lemma BigInt_0x_not_hex: "BigInt_0x (slice 0 64 (sigHex_of (js ''0xzz''))) = Inl SyntaxError"
  by (simp add: sigHex_of_def startsWith_def slice_from_def slice_def js_def BigInt_0x_def
      is_hex_def hex_value_def)

lemma demo_verifyAsync_hello_world:
  "verifyAsync demo_lib ((replicate 31 0 @ [1]) @ (replicate 29 0 @ [64, 162, 1]))
     (sha256 demo_lib (personal_message_buffer (messageBytes (MString (js ''Hello World'')))))
     (2 # replicate 31 0 @ [1]) = Inr True"
  by (simp only: demo_hash_hello_world)
     (simp add: demo_lib_def demo_verify_def demo_hash_def sum_list_replicate)

lemma demo_verify_first_128:
  "verifySignature demo_lib (MString (js ''Hello World''))
     (js ''0x''
        @ js ''0000000000000000000000000000000000000000000000000000000000000001''
        @ js ''000000000000000000000000000000000000000000000000000000000040a201''
        @ rest)
     (2 # replicate 31 0 @ [1]) demo_world = (Inr True, demo_world)"
proof -
  have "verifySignature_try demo_lib (MString (js ''Hello World''))
      (js ''0x'' @ hex_of_bytes (replicate 31 0 @ [1])
         @ hex_of_bytes (replicate 29 0 @ [64, 162, 1]) @ rest)
      (2 # replicate 31 0 @ [1]) = Inr True"
    by (simp only: verifySignature_try_formatted_bytes [OF valid_key_one valid_demo_s]
        demo_verifyAsync_hello_world)
  then show ?thesis
    by (simp only: verifySignature_def hex_demo_r hex_demo_s sum.case)
qed

theorem verifySignature_accepts_malformed_signatures:
  "verifySignature demo_lib (MString (js ''Hello World''))
     (js ''0x''
        @ js ''0000000000000000000000000000000000000000000000000000000000000001''
        @ js ''000000000000000000000000000000000000000000000000000000000040a201'')
     (2 # replicate 31 0 @ [1]) demo_world = (Inr True, demo_world)
   \<and> length (js ''0x''
        @ js ''0000000000000000000000000000000000000000000000000000000000000001''
        @ js ''000000000000000000000000000000000000000000000000000000000040a201'') = 130
   \<and> verifySignature demo_lib (MString (js ''Hello World''))
     (js ''0x''
        @ js ''0000000000000000000000000000000000000000000000000000000000000001''
        @ js ''000000000000000000000000000000000000000000000000000000000040a201''
        @ js ''zz, and more text that is not hexadecimal'')
     (2 # replicate 31 0 @ [1]) demo_world = (Inr True, demo_world)"
  using demo_verify_first_128 [of "[]"]
    demo_verify_first_128 [of "js ''zz, and more text that is not hexadecimal''"]
  by simp

lemma BigInt_0x_of_formatted:
  assumes "length rb = 32" and "length sb = 32"
  shows "BigInt_0x (slice 0 64 (sigHex_of (js ''0x'' @ hex_of_bytes rb @ hex_of_bytes sb @ rest)))
           = Inr (bytesToNumBE rb)"
    and "BigInt_0x (slice 64 128 (sigHex_of (js ''0x'' @ hex_of_bytes rb @ hex_of_bytes sb @ rest)))
           = Inr (bytesToNumBE sb)"
proof -
  have a: "slice 0 64 (hex_of_bytes rb @ hex_of_bytes sb @ rest) = hex_of_bytes rb"
    using assms by (simp add: slice_def)
  have b: "slice 64 128 (hex_of_bytes rb @ hex_of_bytes sb @ rest) = hex_of_bytes sb"
    using assms by (simp add: slice_def)
  have "bytesToNumBE rb < 256 ^ 32" "bytesToNumBE sb < 256 ^ 32"
    using bytesToNumBE_bound [of rb] bytesToNumBE_bound [of sb] assms by simp_all
  then have m: "bytesToNumBE rb mod 16 ^ 64 = bytesToNumBE rb"
    "bytesToNumBE sb mod 16 ^ 64 = bytesToNumBE sb"
    by (simp_all only: pow_256_32 mod_less)
  have "BigInt_0x (hex_fixed 64 (bytesToNumBE rb)) = Inr (bytesToNumBE rb mod 16 ^ 64)"
    by (rule BigInt_0x_hex_fixed) simp
  then have r0: "BigInt_0x (hex_of_bytes rb) = Inr (bytesToNumBE rb)"
    by (simp only: m(1) hex_of_bytes_of_number [OF assms(1)])
  have "BigInt_0x (hex_fixed 64 (bytesToNumBE sb)) = Inr (bytesToNumBE sb mod 16 ^ 64)"
    by (rule BigInt_0x_hex_fixed) simp
  then have s0: "BigInt_0x (hex_of_bytes sb) = Inr (bytesToNumBE sb)"
    by (simp only: m(2) hex_of_bytes_of_number [OF assms(2)])
  show "BigInt_0x (slice 0 64 (sigHex_of (js ''0x'' @ hex_of_bytes rb @ hex_of_bytes sb @ rest)))
           = Inr (bytesToNumBE rb)"
    by (simp only: sigHex_of_0x a r0)
  show "BigInt_0x (slice 64 128 (sigHex_of (js ''0x'' @ hex_of_bytes rb @ hex_of_bytes sb @ rest)))
           = Inr (bytesToNumBE sb)"
    by (simp only: sigHex_of_0x b s0)
qed

lemma hex_zero_r:
  "hex_of_bytes (replicate 32 0)
     = js ''0000000000000000000000000000000000000000000000000000000000000000''"
  by (simp add: hex_of_bytes_def hex_of_byte_def digit_char_def js_def replicate_numeral)

theorem verifySignature_never_throws_witness:
  "verifySignature demo_lib (MString (js ''Hello World'')) (js ''0xzz'')
     (2 # replicate 31 0 @ [1]) demo_world = (Inr False, demo_world)
   \<and> verifySignature demo_lib (MString (js ''Hello World'')) []
     (2 # replicate 31 0 @ [1]) demo_world = (Inr False, demo_world)
   \<and> verifySignature demo_lib (MString (js ''Hello World''))
     (js ''0x''
        @ js ''0000000000000000000000000000000000000000000000000000000000000001''
        @ js ''000000000000000000000000000000000000000000000000000000000040a201''
        @ js ''1b'')
     (2 # replicate 31 0 @ [1]) demo_world
     = verifySignature demo_lib (MString (js ''Hello World''))
     (js ''0x''
        @ js ''0000000000000000000000000000000000000000000000000000000000000001''
        @ js ''000000000000000000000000000000000000000000000000000000000040a201''
        @ js ''1c'')
     (2 # replicate 31 0 @ [1]) demo_world
   \<and> verifySignature demo_lib (MString (js ''Hello World''))
     (js ''0x''
        @ js ''0000000000000000000000000000000000000000000000000000000000000000''
        @ js ''000000000000000000000000000000000000000000000000000000000040a201''
        @ js ''1b'')
     (2 # replicate 31 0 @ [1]) demo_world = (Inr False, demo_world)
   \<and> verifySignature demo_lib (MString (js ''Hello World''))
     (js ''0x''
        @ js ''0000000000000000000000000000000000000000000000000000000000000001''
        @ js ''000000000000000000000000000000000000000000000000000000000040a201''
        @ js ''1b'')
     (2 # replicate 31 0 @ [1]) demo_world = (Inr True, demo_world)"
proof -
  let ?m = "MString (js ''Hello World'')" and ?pk = "2 # replicate 31 0 @ [1 :: byte]"
  let ?rs = "js ''0000000000000000000000000000000000000000000000000000000000000001''
        @ js ''000000000000000000000000000000000000000000000000000000000040a201''"
  have a: "verifySignature demo_lib ?m (js ''0xzz'') ?pk demo_world = (Inr False, demo_world)"
    using verifySignature_never_throws [where L = demo_lib and msg = ?m
        and signature = "js ''0xzz''" and publicKey = ?pk and w = demo_world
        and ?e1.0 = SyntaxError]
      BigInt_0x_not_hex
    by blast
  have e: "BigInt_0x (slice 64 128 (sigHex_of [])) = Inl SyntaxError"
    by (simp add: sigHex_of_def startsWith_def slice_def js_def BigInt_0x_def)
  have b: "verifySignature demo_lib ?m [] ?pk demo_world = (Inr False, demo_world)"
    using verifySignature_never_throws [where L = demo_lib and msg = ?m
        and signature = "[]" and publicKey = ?pk and w = demo_world and ?e2.0 = SyntaxError] e
    by blast
  have s: "slice 0 128 (sigHex_of (js ''0x'' @ ?rs @ js ''1b''))
      = slice 0 128 (sigHex_of (js ''0x'' @ ?rs @ js ''1c''))"
    by (simp only: sigHex_of_0x) (simp add: slice_def)
  have c: "verifySignature demo_lib ?m (js ''0x'' @ ?rs @ js ''1b'') ?pk demo_world
      = verifySignature demo_lib ?m (js ''0x'' @ ?rs @ js ''1c'') ?pk demo_world"
    using verifySignature_never_throws [where L = demo_lib and msg = ?m
        and signature = "js ''0x'' @ ?rs @ js ''1b''" and publicKey = ?pk and w = demo_world
        and signature' = "js ''0x'' @ ?rs @ js ''1c''"] s
    by blast
  let ?k = "replicate 31 0 @ [1 :: byte]" and ?d = "replicate 29 0 @ [64, 162, 1 :: byte]"
  let ?z = "replicate 32 (0 :: byte)"
  have lz: "length ?z = 32" and lk: "length ?k = 32" and ld: "length ?d = 32" by simp_all
  have nz: "bytesToNumBE ?z = 0"
    using bytesToNumBE_zeros [of 32 "[]"] by (simp add: bytesToNumBE_def)
  then have nr: "\<not> (1 \<le> bytesToNumBE ?z \<and> bytesToNumBE ?z < CURVE_N
      \<and> 1 \<le> bytesToNumBE ?d \<and> bytesToNumBE ?d < CURVE_N)"
    by simp
  have d0: "verifySignature demo_lib ?m
      (js ''0x'' @ hex_of_bytes ?z @ hex_of_bytes ?d @ js ''1b'') ?pk demo_world
      = (Inr False, demo_world)"
    using verifySignature_never_throws [where L = demo_lib and msg = ?m
        and signature = "js ''0x'' @ hex_of_bytes ?z @ hex_of_bytes ?d @ js ''1b''"
        and publicKey = ?pk and w = demo_world
        and r = "bytesToNumBE ?z" and s = "bytesToNumBE ?d"]
      BigInt_0x_of_formatted [OF lz ld, of "js ''1b''"] nr
    by blast
  then have d: "verifySignature demo_lib ?m
      (js ''0x''
        @ js ''0000000000000000000000000000000000000000000000000000000000000000''
        @ js ''000000000000000000000000000000000000000000000000000000000040a201''
        @ js ''1b'') ?pk demo_world = (Inr False, demo_world)"
    by (simp only: hex_zero_r hex_demo_s)
  have rk: "1 \<le> bytesToNumBE ?k \<and> bytesToNumBE ?k < CURVE_N
      \<and> 1 \<le> bytesToNumBE ?d \<and> bytesToNumBE ?d < CURVE_N"
    using valid_key_one valid_demo_s by (simp only: isValidSecretKey_def)
  have bk: "numToBytesBE 32 (bytesToNumBE ?k) = ?k" "numToBytesBE 32 (bytesToNumBE ?d) = ?d"
    using numToBytesBE_bytesToNumBE [of ?k] numToBytesBE_bytesToNumBE [of ?d] lk ld
    by (simp_all only:)
  have "verifySignature demo_lib ?m
      (js ''0x'' @ hex_of_bytes ?k @ hex_of_bytes ?d @ js ''1b'') ?pk demo_world
      = (Inr (verifyAsync demo_lib
                (numToBytesBE 32 (bytesToNumBE ?k) @ numToBytesBE 32 (bytesToNumBE ?d))
                (sha256 demo_lib (personal_message_buffer (messageBytes ?m))) ?pk = Inr True),
         demo_world)"
    using verifySignature_never_throws [where L = demo_lib and msg = ?m
        and signature = "js ''0x'' @ hex_of_bytes ?k @ hex_of_bytes ?d @ js ''1b''"
        and publicKey = ?pk and w = demo_world
        and r = "bytesToNumBE ?k" and s = "bytesToNumBE ?d"]
      BigInt_0x_of_formatted [OF lk ld, of "js ''1b''"] rk
    by blast
  then have f: "verifySignature demo_lib ?m
      (js ''0x''
        @ js ''0000000000000000000000000000000000000000000000000000000000000001''
        @ js ''000000000000000000000000000000000000000000000000000000000040a201''
        @ js ''1b'') ?pk demo_world = (Inr True, demo_world)"
    by (simp only: bk demo_verifyAsync_hello_world hex_demo_r hex_demo_s simp_thms)
  from a b c [unfolded append_assoc] d f show ?thesis by blast
qed

subsection \<open>Encryption\<close>

lemma length_getRandomValues [simp]: "length (fst (getRandomValues n w)) = n"
  by (simp add: getRandomValues_def)

lemma getRandomValues_frame [simp]:
  "idb_up (snd (getRandomValues n w)) = idb_up w"
  "signing_keys (snd (getRandomValues n w)) = signing_keys w"
  "clock (snd (getRandomValues n w)) = clock w"
  "entropy (snd (getRandomValues n w)) = (\<lambda>i. entropy w (i + n))"
  "max_arguments (snd (getRandomValues n w)) = max_arguments w"
  by (simp_all add: getRandomValues_def)

lemma fst_decrypt_world: "fst (decrypt L ct iv salt_bytes password w) = fst (decrypt L ct iv salt_bytes password w')"
  by (simp add: decrypt_def Let_def)

lemma snd_decrypt [simp]: "snd (decrypt L ct iv salt_bytes password w) = w"
  by (simp add: decrypt_def Let_def)


lemma encrypt_by_contract:
  assumes "aead_contract L" and "hkdf_contract L"
  shows "\<exists>ct. encrypt L dat password w
             = (Inr \<lparr>res_encryptedData = ct, res_iv = fst (getRandomValues 12 (snd (getRandomValues 16 w))),
                     res_salt = fst (getRandomValues 16 w)\<rparr>,
                snd (getRandomValues 12 (snd (getRandomValues 16 w))))
           \<and> fst (decrypt L ct (fst (getRandomValues 12 (snd (getRandomValues 16 w))))
                  (fst (getRandomValues 16 w)) password w') = Inr dat"
proof -
  let ?salt = "fst (getRandomValues 16 w)"
  let ?w1 = "snd (getRandomValues 16 w)"
  let ?iv = "fst (getRandomValues 12 ?w1)"
  let ?key = "hkdf L (TextEncoder_encode password) (Some ?salt)
                (TextEncoder_encode (js ''passface-encryption-key-v1'')) 32"
  from assms(2) have lk: "length ?key = 32" by (simp add: hkdf_contract_def)
  have li: "length ?iv = 12" by simp
  from assms(1) lk li obtain ct where ct:
    "aes_gcm_encrypt L ?key ?iv dat = Inr ct" "aes_gcm_decrypt L ?key ?iv ct = Inr dat"
    unfolding aead_contract_def by blast
  have ik: "importKey_AES_GCM ?key = Inr ?key"
    using lk by (simp add: importKey_AES_GCM_def)
  have e: "encrypt L dat password w
      = (Inr \<lparr>res_encryptedData = ct, res_iv = ?iv, res_salt = ?salt\<rparr>, snd (getRandomValues 12 ?w1))"
    by (simp add: encrypt_def Let_def case_prod_beta ik ct(1) bindE_def)
  have d: "fst (decrypt L ct ?iv ?salt password w') = Inr dat"
    by (simp add: decrypt_def Let_def ik ct(2) bindE_def)
  from e d show ?thesis by blast
qed

lemma encrypt_draws_entropy:
  "entropy (snd (encrypt L dat password w)) = (\<lambda>i. entropy w (i + 28))"
  by (simp add: encrypt_def Let_def case_prod_beta add.assoc)

text \<open>
  Claim C8. For every byte payload and every password, with a library whose AES-GCM
  decrypts what it encrypted under the same key and IV, \<^verbatim>\<open>encrypt\<close> returns a
  ciphertext, a 12-byte IV and a 16-byte salt drawn from the random source, and
  \<^verbatim>\<open>decrypt\<close> on that ciphertext, IV and salt with the same password returns exactly the
  payload: both derive the key by HKDF from the UTF-8 bytes of the password, the salt and
  the same label.
\<close>

theorem encrypt_decrypt_round_trip:
  assumes "aead_contract L" and "hkdf_contract L"
  shows "\<exists>out w'.
           encrypt L dat password w = (Inr out, w')
           \<and> length (res_iv out) = 12 \<and> length (res_salt out) = 16
           \<and> decrypt L (res_encryptedData out) (res_iv out) (res_salt out) password w'
               = (Inr dat, w')"
proof -
  let ?w' = "snd (getRandomValues 12 (snd (getRandomValues 16 w)))"
  from encrypt_by_contract [OF assms, of dat password w ?w'] obtain ct where
    e: "encrypt L dat password w
          = (Inr \<lparr>res_encryptedData = ct, res_iv = fst (getRandomValues 12 (snd (getRandomValues 16 w))),
                  res_salt = fst (getRandomValues 16 w)\<rparr>, ?w')"
    and d: "fst (decrypt L ct (fst (getRandomValues 12 (snd (getRandomValues 16 w))))
                  (fst (getRandomValues 16 w)) password ?w') = Inr dat"
    by blast
  have "decrypt L ct (fst (getRandomValues 12 (snd (getRandomValues 16 w))))
          (fst (getRandomValues 16 w)) password ?w' = (Inr dat, ?w')"
    using d snd_decrypt [of L ct _ _ password ?w'] by (metis prod.collapse)
  with e show ?thesis by simp
qed

lemma hkdf_contract_demo_lib: "hkdf_contract demo_lib"
  by (auto simp: hkdf_contract_def demo_lib_def demo_hkdf_def)

lemma aead_contract_demo_lib: "aead_contract demo_lib"
  by (simp add: aead_contract_def demo_lib_def demo_encrypt_def demo_decrypt_def demo_tag_def
      demo_hash_def)

theorem encrypt_decrypt_round_trip_witness:
  "\<exists>out w'.
     encrypt demo_lib (replicate 31 0 @ [1]) (js ''correct horse'') demo_world = (Inr out, w')
     \<and> length (res_iv out) = 12 \<and> length (res_salt out) = 16
     \<and> decrypt demo_lib (res_encryptedData out) (res_iv out) (res_salt out)
          (js ''correct horse'') w'
        = (Inr (replicate 31 0 @ [1]), w')"
  by (rule encrypt_decrypt_round_trip [OF aead_contract_demo_lib hkdf_contract_demo_lib])

subsection \<open>Base64\<close>












lemma bytesToBase64_beyond:
  "max_arguments w < length bs \<Longrightarrow> bytesToBase64 w bs = Inl RangeError"
  by (simp add: bytesToBase64_def)


subsection \<open>The key vault\<close>



lemma encrypt_ciphertext:
  assumes "aead_contract L" and "hkdf_contract L"
  shows "\<exists>ct. aes_gcm_encrypt L
                (hkdf L (TextEncoder_encode password) (Some (fst (getRandomValues 16 w)))
                   (TextEncoder_encode (js ''passface-encryption-key-v1'')) 32)
                (fst (getRandomValues 12 (snd (getRandomValues 16 w)))) dat = Inr ct
           \<and> encrypt L dat password w
             = (Inr \<lparr>res_encryptedData = ct,
                     res_iv = fst (getRandomValues 12 (snd (getRandomValues 16 w))),
                     res_salt = fst (getRandomValues 16 w)\<rparr>,
                snd (getRandomValues 12 (snd (getRandomValues 16 w))))
           \<and> (\<forall>w'. fst (decrypt L ct (fst (getRandomValues 12 (snd (getRandomValues 16 w))))
                        (fst (getRandomValues 16 w)) password w') = Inr dat)"
proof -
  let ?salt = "fst (getRandomValues 16 w)"
  let ?w1 = "snd (getRandomValues 16 w)"
  let ?iv = "fst (getRandomValues 12 ?w1)"
  let ?key = "hkdf L (TextEncoder_encode password) (Some ?salt)
                (TextEncoder_encode (js ''passface-encryption-key-v1'')) 32"
  from assms(2) have lk: "length ?key = 32" by (simp add: hkdf_contract_def)
  have li: "length ?iv = 12" by simp
  from assms(1) lk li obtain ct where ct:
    "aes_gcm_encrypt L ?key ?iv dat = Inr ct" "aes_gcm_decrypt L ?key ?iv ct = Inr dat"
    unfolding aead_contract_def by blast
  have ik: "importKey_AES_GCM ?key = Inr ?key"
    using lk by (simp add: importKey_AES_GCM_def)
  have e: "encrypt L dat password w
      = (Inr \<lparr>res_encryptedData = ct, res_iv = ?iv, res_salt = ?salt\<rparr>, snd (getRandomValues 12 ?w1))"
    by (simp add: encrypt_def Let_def case_prod_beta ik ct(1) bindE_def)
  have d: "fst (decrypt L ct ?iv ?salt password w') = Inr dat" for w'
    by (simp add: decrypt_def Let_def ik ct(2) bindE_def)
  from ct(1) e d show ?thesis by blast
qed




text \<open>A key that, with the 16 bytes of the tag, is longer than the engine's limit is not
  stored: the \<^verbatim>\<open>RangeError\<close> of the conversion is rethrown by \<^verbatim>\<open>storeKey\<close>.\<close>

lemma storeKey_beyond_limit:
  assumes "aead_contract L" and "hkdf_contract L" and "aead_tag_contract L"
    and "max_arguments w < length privateKey + 16"
  shows "fst (storeKey L credentialId privateKey P1 metadata w) = Inl FailedToStoreSigningKey"
proof -
  let ?salt = "fst (getRandomValues 16 w)"
  let ?iv = "fst (getRandomValues 12 (snd (getRandomValues 16 w)))"
  let ?w1 = "snd (getRandomValues 12 (snd (getRandomValues 16 w)))"
  from encrypt_ciphertext [OF assms(1,2), where dat = privateKey and password = P1 and w = w] obtain ct where
    c: "aes_gcm_encrypt L
          (hkdf L (TextEncoder_encode P1) (Some ?salt)
             (TextEncoder_encode (js ''passface-encryption-key-v1'')) 32) ?iv privateKey = Inr ct"
    and e: "encrypt L privateKey P1 w
          = (Inr \<lparr>res_encryptedData = ct, res_iv = ?iv, res_salt = ?salt\<rparr>, ?w1)"
    by blast
  from assms(3) c have "length ct = length privateKey + 16"
    unfolding aead_tag_contract_def by blast
  with assms(4) have "max_arguments ?w1 < length ct" by simp
  then have "bytesToBase64 ?w1 ct = Inl RangeError" by (rule bytesToBase64_beyond)
  then show ?thesis by (simp add: storeKey_def e bindE_def Let_def)
qed














end
